theory Spec2Isabelle
  imports Main "HOL-Library.Multiset" "HOL-Library.Sublist"
begin

section \<open>Shared vocabulary: notifications, diagnostics and external operations\<close>

text \<open>
  The dashboard is a thin client. Every operation of the source either changes the
  component's own state, calls an external collaborator (the document store, the
  authentication provider, the agent provider) or tells the operator something
  (a \<open>toast\<close>) or the developer something (\<open>console.error\<close>). The model keeps the
  effect of each source function as the list of such events, in program order, next to
  the state it returns. The outcome of every external call is an input of the model.
\<close>

type_synonym uid = string

datatype toast_kind = Success | Error

subsection \<open>Preference values (AIPreferences.tsx, StoryPreferences.tsx)\<close>

record Voice =
  voice_id :: string
  voice_name :: string
  provider :: string
  accent :: string
  gender :: string
  age :: string
  preview_audio_url :: string

datatype followUp = Fewer | BalancedFollowUp | More

datatype convStyle = Casual | BalancedStyle | Reflective

record aiPreferences =
  voice :: Voice
  followUpIntensity :: followUp
  conversationStyle :: convStyle

datatype narrative = FirstPerson | ThirdPerson

datatype lengthPref = Shorter | BalancedLength | Longer

datatype detail = FewerDetail | BalancedDetail | MoreDetail

record storyPreferences =
  narrativeStyle :: narrative
  lengthPreference :: lengthPref
  detailRichness :: detail

datatype pref_value = AIPrefs aiPreferences | StoryPrefs storyPreferences

datatype event =
    UpdateDoc_admin uid pref_value bool
  | GetDocs_users bool
  | New_Retell bool
  | Agent_update string string bool
  | Batch_commit "uid list" pref_value bool
  | GetDoc_admin uid bool
  | Voice_list bool
  | GetDocs_call_history bool
  | GetDoc_user uid
  | Console_error string
  | Toast toast_kind string
  | Toast_inherited toast_kind string

text \<open>
  \<open>UpdateDoc_admin u p ok\<close>: \<open>updateDoc(doc(db, 'admins', u), ...)\<close> carrying \<open>p\<close>, and
  whether the promise resolved. \<open>Agent_update a v ok\<close>: \<open>client.agent.update(a, {voice_id: v})\<close>.
  \<open>Batch_commit us p ok\<close>: \<open>batch.commit()\<close> of a batch holding one update of \<open>p\<close> for each
  user document of \<open>us\<close>. \<open>Toast k m\<close>: a notification with the text \<open>m\<close>.
  \<open>Toast_inherited k n\<close>: the notification function called with no text but with the
  property an object literal inherits under the name \<open>n\<close> (a function or an object).
\<close>

definition toasts :: "event list \<Rightarrow> (toast_kind \<times> string) list" where
  "toasts tr = concat (map (\<lambda>e. case e of Toast k m \<Rightarrow> [(k, m)] | _ \<Rightarrow> []) tr)"

section \<open>Authentication errors (AuthForm.tsx, handleAuthError)\<close>

record auth_error =
  code :: "string option"
  message :: string

text \<open>
  An \<open>AuthError\<close> carries a \<open>code\<close>; a plain \<open>Error\<close> has none (\<open>undefined\<close>). The
  table is the object literal of the source.
\<close>

definition errorMessages :: "(string \<times> string) list" where
  "errorMessages =
    [(''auth/invalid-credential'', ''Invalid email or password. Please check your credentials and try again.''),
     (''auth/wrong-password'', ''Invalid email or password. Please check your credentials and try again.''),
     (''auth/user-not-found'', ''No admin account found with this email.''),
     (''auth/invalid-email'', ''Please enter a valid email address.''),
     (''auth/network-request-failed'', ''Network error. Please check your connection.''),
     (''auth/too-many-requests'', ''Too many attempts. Please try again later.''),
     (''auth/operation-not-allowed'', ''This sign-in method is not enabled.''),
     (''auth/email-already-in-use'', ''An admin account with this email already exists.''),
     (''auth/weak-password'', ''Password should be at least 6 characters long.'')]"

text \<open>
  What \<open>errorMessages[code]\<close> can evaluate to: \<open>undefined\<close>, a text of the table, or a
  property the object literal inherits from \<open>Object.prototype\<close>, kept by its name.
\<close>

datatype js_value = Undefined | Str string | Inherited string

text \<open>
  The names every object literal inherits from \<open>Object.prototype\<close>. Each is bound to a
  function, \<open>__proto__\<close> to the prototype object: none of them is a text, all are truthy.
\<close>

definition Object_prototype_keys :: "string list" where
  "Object_prototype_keys =
     [''constructor'', ''__defineGetter__'', ''__defineSetter__'', ''hasOwnProperty'',
      ''__lookupGetter__'', ''__lookupSetter__'', ''isPrototypeOf'', ''propertyIsEnumerable'',
      ''toString'', ''valueOf'', ''__proto__'', ''toLocaleString'']"

text \<open>
  \<open>errorMessages[code]\<close>: an own key answers with its text and hides an inherited
  name; an inherited name answers with the inherited property; anything else, also the
  key \<open>undefined\<close> of an error without code, with \<open>undefined\<close>.
\<close>

definition lookupMessage :: "string option \<Rightarrow> js_value" where
  "lookupMessage c =
     (case c of
        None \<Rightarrow> Undefined
      | Some k \<Rightarrow>
          (case map_of errorMessages k of
             Some t \<Rightarrow> Str t
           | None \<Rightarrow> if k \<in> set Object_prototype_keys then Inherited k else Undefined))"

text \<open>JavaScript's \<open>a || b\<close> on strings: an absent or empty \<open>a\<close> is falsy.\<close>

definition js_or :: "string option \<Rightarrow> string \<Rightarrow> string" where
  "js_or a b = (case a of None \<Rightarrow> b | Some s \<Rightarrow> if s = [] then b else s)"

text \<open>The same on values: \<open>undefined\<close> and the empty text are falsy, a function or object is truthy.\<close>

definition truthy :: "js_value \<Rightarrow> bool" where
  "truthy x = (case x of Undefined \<Rightarrow> False | Str s \<Rightarrow> s \<noteq> [] | Inherited n \<Rightarrow> True)"

definition js_or_value :: "js_value \<Rightarrow> js_value \<Rightarrow> js_value" where
  "js_or_value a b = (if truthy a then a else b)"

definition genericAuthMessage :: string where
  "genericAuthMessage = ''An error occurred during sign in. Please try again.''"

text \<open>The argument of \<open>toast.error\<close>.\<close>

definition surfacedMessage :: "auth_error \<Rightarrow> js_value" where
  "surfacedMessage e =
     (let message = js_or_value (lookupMessage (code e)) (Str (message e))
      in js_or_value message (Str genericAuthMessage))"

definition toast_error :: "js_value \<Rightarrow> event" where
  "toast_error x =
     (case x of Str m \<Rightarrow> Toast Error m | Inherited n \<Rightarrow> Toast_inherited Error n | Undefined \<Rightarrow> Toast Error [])"

definition handleAuthError :: "auth_error \<Rightarrow> event list" where
  "handleAuthError e = [Console_error ''Authentication error:'', toast_error (surfacedMessage e)]"

section \<open>The document store and the agent provider\<close>

record admin_doc =
  admin_name :: string
  admin_email :: string
  admin_createdAt :: nat
  admin_updatedAt :: nat
  admin_ai :: "aiPreferences option"
  admin_story :: "storyPreferences option"

text \<open>
  A user document, as far as this application reads or writes it. \<open>agentIds = None\<close>
  stands for a document whose \<open>agentIds\<close> field is absent or is not an array. The three
  dotted-path updates \<open>'aiPreferences.voice'\<close>, \<open>'aiPreferences.followUpIntensity'\<close> and
  \<open>'aiPreferences.conversationStyle'\<close> of one batch entry set all three fields of the
  nested map, so the nested map is kept as one optional block.
\<close>

record user_doc =
  agentIds :: "string list option"
  user_ai :: "aiPreferences option"
  user_story :: "storyPreferences option"
  user_updatedAt :: nat

text \<open>
  The store: the \<open>admins\<close> collection by document id, the \<open>users\<close> collection in the order
  \<open>getDocs\<close> returns it, and the server clock that \<open>serverTimestamp()\<close> reads.
\<close>

record store =
  admins :: "uid \<rightharpoonup> admin_doc"
  users :: "(uid \<times> user_doc) list"
  clock :: nat

text \<open>
  What the collaborators answer during one run. \<open>updateDoc_ok\<close>, \<open>getDocs_ok\<close>,
  \<open>commit_ok\<close>, \<open>getDoc_ok\<close>: the store resolves (rather than rejects) the call.
  \<open>retell_ctor\<close>: \<open>None\<close> when \<open>new Retell(...)\<close> returns a client, \<open>Some m\<close> when it throws
  an error with message \<open>m\<close>. \<open>agent_ok a\<close>: the provider resolves the update of agent \<open>a\<close>.
  \<open>voice_catalog\<close>: the answer of \<open>client.voice.list()\<close>, \<open>None\<close> when it rejects.
\<close>

record env =
  updateDoc_ok :: bool
  getDocs_ok :: bool
  commit_ok :: bool
  getDoc_ok :: bool
  retell_ctor :: "string option"
  agent_ok :: "string \<Rightarrow> bool"
  voice_catalog :: "Voice list option"

definition set_admin_pref :: "pref_value \<Rightarrow> nat \<Rightarrow> admin_doc \<Rightarrow> admin_doc" where
  "set_admin_pref p t d =
     (case p of
        AIPrefs a \<Rightarrow> d\<lparr>admin_ai := Some a, admin_updatedAt := t\<rparr>
      | StoryPrefs s \<Rightarrow> d\<lparr>admin_story := Some s, admin_updatedAt := t\<rparr>)"

text \<open>
  \<open>updateDoc\<close> on \<open>admins/{u}\<close>: it rejects when the store does, and when the document
  does not exist (an update never creates a document). Otherwise the named fields are
  replaced and the others kept.
\<close>

definition updateDoc_admin :: "env \<Rightarrow> store \<Rightarrow> uid \<Rightarrow> pref_value \<Rightarrow> store option" where
  "updateDoc_admin ev st u p =
     (case admins st u of
        None \<Rightarrow> None
      | Some d \<Rightarrow>
          if updateDoc_ok ev
          then Some (st\<lparr>admins := (admins st)(u \<mapsto> set_admin_pref p (clock st) d),
                        clock := Suc (clock st)\<rparr>)
          else None)"

definition set_user_pref :: "pref_value \<Rightarrow> nat \<Rightarrow> user_doc \<Rightarrow> user_doc" where
  "set_user_pref p t d =
     (case p of
        AIPrefs a \<Rightarrow> d\<lparr>user_ai := Some a, user_updatedAt := t\<rparr>
      | StoryPrefs s \<Rightarrow> d\<lparr>user_story := Some s, user_updatedAt := t\<rparr>)"

text \<open>
  A committed batch holding one update for each document of \<open>targets\<close>: all of them are
  applied, with one server time.
\<close>

definition batch_apply :: "store \<Rightarrow> uid list \<Rightarrow> pref_value \<Rightarrow> store" where
  "batch_apply st targets p =
     st\<lparr>users := map (\<lambda>(u, d). if u \<in> set targets then (u, set_user_pref p (clock st) d) else (u, d))
                      (users st),
        clock := Suc (clock st)\<rparr>"

section \<open>AI preferences (AIPreferences.tsx)\<close>

definition DEFAULT_VOICE :: Voice where
  "DEFAULT_VOICE =
     \<lparr>voice_id = ''play-Cimo'', voice_name = ''Cimo'', provider = ''play'',
      accent = ''American'', gender = ''female'', age = ''Middle Aged'',
      preview_audio_url = ''https://retell-utils-public.s3.us-west-2.amazonaws.com/play-Cimo.mp3''\<rparr>"

record ai_view =
  voices :: "Voice list"
  selectedVoice :: "Voice option"
  conversationStyle_st :: "convStyle option"
  followUpIntensity_st :: "followUp option"

definition ai_view_init :: ai_view where
  "ai_view_init = \<lparr>voices = [], selectedVoice = None, conversationStyle_st = None,
                   followUpIntensity_st = None\<rparr>"

definition ai_set_defaults :: "ai_view \<Rightarrow> ai_view" where
  "ai_set_defaults v =
     v\<lparr>selectedVoice := Some DEFAULT_VOICE, conversationStyle_st := Some BalancedStyle,
       followUpIntensity_st := Some BalancedFollowUp\<rparr>"

definition ai_load_failed :: "ai_view \<Rightarrow> event list \<Rightarrow> ai_view \<times> event list" where
  "ai_load_failed v tr =
     (ai_set_defaults v, tr @ [Console_error ''Error fetching data:'', Toast Error ''Failed to load preferences''])"

text \<open>
  \<open>fetchData\<close>: the client is built, the administrator's record is read, then the voice
  catalogue. Anything thrown on the way lands in the one \<open>catch\<close>, which overwrites the
  three preference fields with the defaults, also when the record had been read.
\<close>

definition fetchData :: "env \<Rightarrow> uid option \<Rightarrow> store \<Rightarrow> ai_view \<Rightarrow> ai_view \<times> event list" where
  "fetchData ev currentUser st v =
     (case currentUser of
        None \<Rightarrow> (v, [])
      | Some u \<Rightarrow>
          (case retell_ctor ev of
             Some m \<Rightarrow> ai_load_failed v [New_Retell False]
           | None \<Rightarrow>
               if \<not> getDoc_ok ev then ai_load_failed v [New_Retell True, GetDoc_admin u False]
               else
                 let v1 = (case admins st u of
                             None \<Rightarrow> v
                           | Some d \<Rightarrow>
                               (case admin_ai d of
                                  Some a \<Rightarrow> v\<lparr>selectedVoice := Some (voice a),
                                              conversationStyle_st := Some (conversationStyle a),
                                              followUpIntensity_st := Some (followUpIntensity a)\<rparr>
                                | None \<Rightarrow> ai_set_defaults v))
                 in (case voice_catalog ev of
                       None \<Rightarrow> ai_load_failed v1 [New_Retell True, GetDoc_admin u True, Voice_list False]
                     | Some vs \<Rightarrow>
                         (v1\<lparr>voices := vs\<rparr>, [New_Retell True, GetDoc_admin u True, Voice_list True]))))"

fun join :: "string list \<Rightarrow> string" where
  "join [] = []"
| "join [x] = x"
| "join (x # y # ys) = x @ '', '' @ join (y # ys)"

text \<open>
  One user's fan-out: \<open>agentIds.map(async ...)\<close> issues one update per id, in the order
  of the list, and \<open>Promise.allSettled\<close> waits for all of them. A rejected update is
  caught inside its own callback, logged, and its id pushed onto \<open>failedUpdates\<close>. The
  callbacks of one user finish in an order the program does not fix; the model lets
  them finish in the order they were issued.
\<close>

definition userUpdates :: "env \<Rightarrow> string \<Rightarrow> string list \<Rightarrow> event list \<times> string list" where
  "userUpdates ev v ids =
     (map (\<lambda>a. Agent_update a v (agent_ok ev a)) ids
        @ map (\<lambda>a. Console_error (''Error updating agent '' @ a @ '':'')) (filter (\<lambda>a. \<not> agent_ok ev a) ids),
      filter (\<lambda>a. \<not> agent_ok ev a) ids)"

text \<open>The \<open>for ... of usersSnapshot.docs\<close> loop, with \<open>failedUpdates\<close> as accumulator.\<close>

fun agentsLoop :: "env \<Rightarrow> string \<Rightarrow> (uid \<times> user_doc) list \<Rightarrow> string list \<Rightarrow> event list \<times> string list" where
  "agentsLoop ev v [] failedUpdates = ([], failedUpdates)"
| "agentsLoop ev v (userDoc # rest) failedUpdates =
     (case agentIds (snd userDoc) of
        None \<Rightarrow> agentsLoop ev v rest failedUpdates
      | Some ids \<Rightarrow>
          (let (tr, failed) = userUpdates ev v ids;
               (tr', failed') = agentsLoop ev v rest (failedUpdates @ failed)
           in (tr @ tr', failed')))"

text \<open>
  \<open>updateRetellAgents\<close> returns nothing; the model returns its events and either the
  message of the error it throws (only the constructor can throw: every update has its
  own \<open>catch\<close>) or the final value of its local \<open>failedUpdates\<close>.
\<close>

definition updateRetellAgents :: "env \<Rightarrow> Voice \<Rightarrow> (uid \<times> user_doc) list \<Rightarrow> event list \<times> (string + string list)" where
  "updateRetellAgents ev sel docs =
     (case retell_ctor ev of
        Some m \<Rightarrow> ([New_Retell False], Inl m)
      | None \<Rightarrow>
          (let (tr, failedUpdates) = agentsLoop ev (voice_id sel) docs []
           in (New_Retell True # tr @
                 (if failedUpdates \<noteq> []
                  then [Console_error (''Failed to update some agents: '' @ join failedUpdates)]
                  else []),
               Inr failedUpdates)))"

text \<open>
  The tail both save handlers share once the user documents are enumerated: build the
  batch over every enumerated document, commit it, report.
\<close>

definition commitBatch :: "env \<Rightarrow> store \<Rightarrow> (uid \<times> user_doc) list \<Rightarrow> pref_value \<Rightarrow> string \<Rightarrow> string \<Rightarrow> string
    \<Rightarrow> store \<times> event list" where
  "commitBatch ev st docs p okMsg logMsg failMsg =
     (if commit_ok ev
      then (batch_apply st (map fst docs) p,
            [Batch_commit (map fst docs) p True, Toast Success okMsg])
      else (st, [Batch_commit (map fst docs) p False, Console_error logMsg, Toast Error failMsg]))"

text \<open>
  The inner \<open>try\<close> of the save handler: whatever \<open>updateRetellAgents\<close> throws is logged
  and shown, and the handler goes on.
\<close>

definition tryUpdateRetellAgents :: "env \<Rightarrow> Voice \<Rightarrow> (uid \<times> user_doc) list \<Rightarrow> event list" where
  "tryUpdateRetellAgents ev sel docs =
     (let (tr, r) = updateRetellAgents ev sel docs
      in tr @ (case r of
                 Inl m \<Rightarrow> [Console_error ''Error updating Retell agents:'', Toast Error m]
               | Inr _ \<Rightarrow> []))"

definition AISettings_handleSaveChanges :: "env \<Rightarrow> uid option \<Rightarrow> ai_view \<Rightarrow> store \<Rightarrow> store \<times> event list" where
  "AISettings_handleSaveChanges ev currentUser v st =
     (case (currentUser, selectedVoice v, conversationStyle_st v, followUpIntensity_st v) of
        (Some u, Some sel, Some cs, Some fu) \<Rightarrow>
          (let p = AIPrefs \<lparr>voice = sel, followUpIntensity = fu, conversationStyle = cs\<rparr>;
               failed = [Console_error ''Error updating AI preferences:'',
                         Toast Error ''Failed to update some preferences. Please try again.'']
           in case updateDoc_admin ev st u p of
                None \<Rightarrow> (st, UpdateDoc_admin u p False # failed)
              | Some st1 \<Rightarrow>
                  if \<not> getDocs_ok ev
                  then (st1, [UpdateDoc_admin u p True, GetDocs_users False] @ failed)
                  else
                    (let usersSnapshot = users st1;
                         tr = tryUpdateRetellAgents ev sel usersSnapshot;
                         (st2, tr2) = commitBatch ev st1 usersSnapshot p
                                        ''Updated AI preferences successfully''
                                        ''Error updating AI preferences:''
                                        ''Failed to update some preferences. Please try again.''
                     in (st2, [UpdateDoc_admin u p True, GetDocs_users True] @ tr @ tr2)))
      | _ \<Rightarrow> (st, []))"

section \<open>Story preferences (StoryPreferences.tsx)\<close>

record story_view =
  narrativeStyle_st :: narrative
  lengthPreference_st :: lengthPref
  detailRichness_st :: detail

definition story_view_init :: story_view where
  "story_view_init = \<lparr>narrativeStyle_st = FirstPerson, lengthPreference_st = BalancedLength,
                      detailRichness_st = BalancedDetail\<rparr>"

definition fetchPreferences :: "env \<Rightarrow> uid option \<Rightarrow> store \<Rightarrow> story_view \<Rightarrow> story_view \<times> event list" where
  "fetchPreferences ev currentUser st v =
     (case currentUser of
        None \<Rightarrow> (v, [])
      | Some u \<Rightarrow>
          if \<not> getDoc_ok ev
          then (v, [GetDoc_admin u False, Console_error ''Error fetching preferences:'',
                    Toast Error ''Failed to load preferences''])
          else
            ((case admins st u of
                None \<Rightarrow> v
              | Some d \<Rightarrow>
                  (case admin_story d of
                     Some s \<Rightarrow> \<lparr>narrativeStyle_st = narrativeStyle s,
                                lengthPreference_st = lengthPreference s,
                                detailRichness_st = detailRichness s\<rparr>
                   | None \<Rightarrow> v)),
             [GetDoc_admin u True]))"

definition StoryPreferences_handleSaveChanges :: "env \<Rightarrow> uid option \<Rightarrow> story_view \<Rightarrow> store \<Rightarrow> store \<times> event list" where
  "StoryPreferences_handleSaveChanges ev currentUser v st =
     (case currentUser of
        None \<Rightarrow> (st, [])
      | Some u \<Rightarrow>
          (let p = StoryPrefs \<lparr>narrativeStyle = narrativeStyle_st v,
                               lengthPreference = lengthPreference_st v,
                               detailRichness = detailRichness_st v\<rparr>;
               failed = [Console_error ''Error updating story preferences:'',
                         Toast Error ''Failed to update story preferences'']
           in case updateDoc_admin ev st u p of
                None \<Rightarrow> (st, UpdateDoc_admin u p False # failed)
              | Some st1 \<Rightarrow>
                  if \<not> getDocs_ok ev
                  then (st1, [UpdateDoc_admin u p True, GetDocs_users False] @ failed)
                  else
                    (let usersSnapshot = users st1;
                         (st2, tr2) = commitBatch ev st1 usersSnapshot p
                                        ''Updated story preferences for all users successfully''
                                        ''Error updating story preferences:''
                                        ''Failed to update story preferences''
                     in (st2, [UpdateDoc_admin u p True, GetDocs_users True] @ tr2))))"

section \<open>Call history (CallHistory component)\<close>

record turn =
  turn_role :: string
  turn_content :: string

text \<open>
  A document of the \<open>call_history\<close> collection group as the snapshot delivers it: its
  id, the id of the user document two levels up (\<open>docSnap.ref.parent.parent?.id\<close>), and
  the fields the component reads. A field the component dereferences or falls back from
  is optional; times are milliseconds, as \<open>getTime()\<close> reads them.
\<close>

record call_doc =
  doc_id :: string
  parent_user :: "uid option"
  d_callId :: "string option"
  d_category :: string
  d_creationTime :: "int option"
  d_initialQuestion :: string
  d_lastUpdated :: "int option"
  d_recording_url :: string
  d_sessionId :: string
  d_storyId :: string
  d_transcript :: string
  d_transcript_object :: "turn list option"
  d_updated :: bool
  d_videoComplete :: bool
  d_videoUrl :: string

record CallEntry =
  entry_id :: string
  callId :: string
  category :: string
  creationTime :: int
  initialQuestion :: string
  lastUpdated :: int
  recording_url :: string
  sessionId :: string
  storyId :: string
  transcript :: string
  transcript_object :: "turn list"
  updated :: bool
  videoComplete :: bool
  videoUrl :: string
  userEmail :: string

definition CALLS_PER_PAGE :: nat where
  "CALLS_PER_PAGE = 20"

text \<open>
  The answer to \<open>getDoc(doc(db, 'users', userId))\<close>: the read rejects, the document does
  not exist, or it exists with its \<open>email\<close> field (absent, or a string).
\<close>

datatype user_lookup = Lookup_rejected | Lookup_missing | Lookup_found "string option"

record history_env =
  snapshot :: "call_doc list option"
  lookup_user :: "uid \<Rightarrow> user_lookup"

record history_view =
  calls :: "CallEntry list"
  isLoading :: bool
  lastVisible :: "string option"
  hasMore :: bool
  isLoadingMore :: bool

definition history_view_init :: history_view where
  "history_view_init = \<lparr>calls = [], isLoading = True, lastVisible = None, hasMore = True,
                        isLoadingMore = False\<rparr>"

definition resolveEmail :: "history_env \<Rightarrow> call_doc \<Rightarrow> string" where
  "resolveEmail ev d =
     (case parent_user d of
        None \<Rightarrow> ''Unknown''
      | Some u \<Rightarrow>
          (case lookup_user ev u of
             Lookup_found e \<Rightarrow> js_or e ''Unknown''
           | _ \<Rightarrow> ''Unknown''))"

definition lookupEvents :: "history_env \<Rightarrow> call_doc \<Rightarrow> event list" where
  "lookupEvents ev d =
     (case parent_user d of
        None \<Rightarrow> []
      | Some u \<Rightarrow>
          GetDoc_user u #
            (case lookup_user ev u of
               Lookup_rejected \<Rightarrow> [Console_error ''Error fetching user email:'']
             | _ \<Rightarrow> []))"

text \<open>
  The callback of \<open>snapshot.docs.map\<close>. \<open>data.creationTime.toDate()\<close> and
  \<open>data.lastUpdated.toDate()\<close> throw on a document without the field, after the user
  lookup was made; the result is then \<open>None\<close>.
\<close>

definition toCallEntry :: "history_env \<Rightarrow> call_doc \<Rightarrow> CallEntry option" where
  "toCallEntry ev d =
     (case (d_creationTime d, d_lastUpdated d) of
        (Some ct, Some lu) \<Rightarrow>
          Some \<lparr>entry_id = doc_id d,
                callId = js_or (d_callId d) (doc_id d),
                category = d_category d,
                creationTime = ct,
                initialQuestion = d_initialQuestion d,
                lastUpdated = lu,
                recording_url = d_recording_url d,
                sessionId = d_sessionId d,
                storyId = d_storyId d,
                transcript = d_transcript d,
                transcript_object = (case d_transcript_object d of None \<Rightarrow> [] | Some ts \<Rightarrow> ts),
                updated = d_updated d,
                videoComplete = d_videoComplete d,
                videoUrl = d_videoUrl d,
                userEmail = resolveEmail ev d\<rparr>
      | _ \<Rightarrow> None)"

text \<open>\<open>Promise.all\<close>: the array of all results, or a rejection when one callback threw.\<close>

fun promise_all :: "'a option list \<Rightarrow> 'a list option" where
  "promise_all [] = Some []"
| "promise_all (None # rs) = None"
| "promise_all (Some x # rs) = (case promise_all rs of None \<Rightarrow> None | Some xs \<Rightarrow> Some (x # xs))"

text \<open>
  \<open>callsData.sort((a, b) => b.lastUpdated.getTime() - a.lastUpdated.getTime())\<close>: a
  stable sort, newest first.
\<close>

definition sortCalls :: "CallEntry list \<Rightarrow> CallEntry list" where
  "sortCalls cs = sort_key (\<lambda>c. - lastUpdated c) cs"

definition fetch_finally :: "bool \<Rightarrow> history_view \<Rightarrow> history_view" where
  "fetch_finally isInitial v = (if isInitial then v\<lparr>isLoading := False\<rparr> else v\<lparr>isLoadingMore := False\<rparr>)"

definition fetch_failed :: "event list" where
  "fetch_failed = [Console_error ''Error fetching calls:'', Toast Error ''Failed to load call history'']"

text \<open>
  \<open>fetchCalls(isInitial)\<close>. \<open>v\<close> is the state of the render whose closure runs: \<open>calls v\<close>
  is the \<open>calls\<close> the closure reads for \<open>calls.length\<close>.
\<close>

definition fetchCalls :: "bool \<Rightarrow> history_env \<Rightarrow> history_view \<Rightarrow> history_view \<times> event list" where
  "fetchCalls isInitial ev v =
     (let v0 = (if isInitial then v\<lparr>isLoading := True\<rparr> else v\<lparr>isLoadingMore := True\<rparr>)
      in case snapshot ev of
           None \<Rightarrow> (fetch_finally isInitial v0, GetDocs_call_history False # fetch_failed)
         | Some docs \<Rightarrow>
             (let tr = GetDocs_call_history True # concat (map (lookupEvents ev) docs)
              in case promise_all (map (toCallEntry ev) docs) of
                   None \<Rightarrow> (fetch_finally isInitial v0, tr @ fetch_failed)
                 | Some callsData \<Rightarrow>
                     (let sortedCallsData = sortCalls callsData;
                          total = length sortedCallsData;
                          count = (if isInitial then CALLS_PER_PAGE else length (calls v) + CALLS_PER_PAGE);
                          paginated = take count sortedCallsData
                      in (fetch_finally isInitial
                            (v0\<lparr>calls := paginated,
                                hasMore := count < total,
                                lastVisible := (if docs = [] then None else Some (doc_id (last docs)))\<rparr>),
                          tr))))"

definition handleLoadMore :: "history_env \<Rightarrow> history_view \<Rightarrow> history_view \<times> event list" where
  "handleLoadMore ev v =
     (if \<not> isLoadingMore v \<and> hasMore v then fetchCalls False ev v else (v, []))"

text \<open>
  The view after the mount's fetch and \<open>n\<close> activations of "load more". Every fetch
  reads the store anew: \<open>evs k\<close> is what the store answers to the \<open>k\<close>-th of them.
\<close>

fun loads :: "(nat \<Rightarrow> history_env) \<Rightarrow> nat \<Rightarrow> history_view" where
  "loads evs 0 = fst (fetchCalls True (evs 0) history_view_init)"
| "loads evs (Suc n) = fst (handleLoadMore (evs (Suc n)) (loads evs n))"

section \<open>The application shell (App.tsx) and the sign-in handler (AuthForm.tsx)\<close>

record app_state =
  user :: "uid option"
  loading :: bool
  adminData :: "admin_doc option"
  isCheckingAdmin :: bool

definition app_init :: app_state where
  "app_init = \<lparr>user = None, loading = True, adminData = None, isCheckingAdmin = False\<rparr>"

datatype screen = Spinner | AuthRoutes | ProtectedRoutes

definition App_render :: "app_state \<Rightarrow> screen" where
  "App_render s =
     (if loading s \<or> isCheckingAdmin s then Spinner
      else if user s = None \<or> adminData s = None then AuthRoutes
      else ProtectedRoutes)"

text \<open>
  \<open>useAuthState\<close> delivers the provider's current user; the component renders with it
  before the effect that depends on \<open>user\<close> runs.
\<close>

definition authStateChanged :: "uid option \<Rightarrow> app_state \<Rightarrow> app_state" where
  "authStateChanged u s = s\<lparr>user := u, loading := False\<rparr>"

datatype admin_lookup = Admin_rejected | Admin_missing | Admin_found admin_doc

definition getDoc_admin :: "bool \<Rightarrow> store \<Rightarrow> uid \<Rightarrow> admin_lookup" where
  "getDoc_admin ok st u =
     (if \<not> ok then Admin_rejected
      else case admins st u of None \<Rightarrow> Admin_missing | Some d \<Rightarrow> Admin_found d)"

text \<open>
  \<open>checkAdminStatus\<close>, run to its end; \<open>ok\<close> tells whether the read of \<open>admins/{uid}\<close>
  resolves. \<open>auth.signOut()\<close> is taken to resolve: it clears the provider's user, which
  \<open>useAuthState\<close> hands back as \<open>user = null\<close>. A rejected read is only logged.
\<close>

definition checkAdminStatus :: "bool \<Rightarrow> store \<Rightarrow> app_state \<Rightarrow> app_state" where
  "checkAdminStatus ok st s =
     (case user s of
        None \<Rightarrow> s\<lparr>isCheckingAdmin := False\<rparr>
      | Some u \<Rightarrow>
          (case getDoc_admin ok st u of
             Admin_found d \<Rightarrow> s\<lparr>adminData := Some d, isCheckingAdmin := False\<rparr>
           | Admin_missing \<Rightarrow> s\<lparr>user := None, isCheckingAdmin := False\<rparr>
           | Admin_rejected \<Rightarrow> s\<lparr>isCheckingAdmin := False\<rparr>))"

text \<open>
  The sign-in branch of \<open>handleSubmit\<close>, after \<open>signInWithEmailAndPassword\<close> resolved for
  \<open>u\<close>: the provider's user afterwards, and what the operator is told.
\<close>

definition signIn_verify :: "bool \<Rightarrow> store \<Rightarrow> uid \<Rightarrow> auth_error \<Rightarrow> uid option \<times> event list" where
  "signIn_verify ok st u err =
     (case getDoc_admin ok st u of
        Admin_found d \<Rightarrow> (Some u, [GetDoc_admin u True, Toast Success ''Signed in successfully!''])
      | Admin_missing \<Rightarrow>
          (None, [GetDoc_admin u True, Toast Error ''Access denied. Admin privileges required.''])
      | Admin_rejected \<Rightarrow> (Some u, GetDoc_admin u False # handleAuthError err))"

section \<open>Notions the properties are stated with\<close>

text \<open>The preference block a save submits: the view's three fields, when all are set.\<close>

definition ai_value :: "ai_view \<Rightarrow> aiPreferences option" where
  "ai_value v =
     (case (selectedVoice v, conversationStyle_st v, followUpIntensity_st v) of
        (Some sel, Some cs, Some fu) \<Rightarrow> Some \<lparr>voice = sel, followUpIntensity = fu, conversationStyle = cs\<rparr>
      | _ \<Rightarrow> None)"

definition story_value :: "story_view \<Rightarrow> storyPreferences" where
  "story_value v = \<lparr>narrativeStyle = narrativeStyle_st v, lengthPreference = lengthPreference_st v,
                    detailRichness = detailRichness_st v\<rparr>"

text \<open>The ids the fan-out walks through for one user document.\<close>

definition agentIdsOf :: "user_doc \<Rightarrow> string list" where
  "agentIdsOf d = (case agentIds d of None \<Rightarrow> [] | Some ids \<Rightarrow> ids)"

text \<open>The provider calls of a run, in order: the agent and whether the call resolved.\<close>

definition agentCalls :: "event list \<Rightarrow> (string \<times> bool) list" where
  "agentCalls tr = concat (map (\<lambda>e. case e of Agent_update a v ok \<Rightarrow> [(a, ok)] | _ \<Rightarrow> []) tr)"

definition is_batch :: "event \<Rightarrow> bool" where
  "is_batch e = (case e of Batch_commit us p ok \<Rightarrow> True | _ \<Rightarrow> False)"

definition is_store_or_provider_call :: "event \<Rightarrow> bool" where
  "is_store_or_provider_call e =
     (case e of Console_error m \<Rightarrow> False | Toast k m \<Rightarrow> False | Toast_inherited k n \<Rightarrow> False
              | _ \<Rightarrow> True)"

definition admin_holds :: "pref_value \<Rightarrow> admin_doc \<Rightarrow> bool" where
  "admin_holds p d = (case p of AIPrefs a \<Rightarrow> admin_ai d = Some a | StoryPrefs s \<Rightarrow> admin_story d = Some s)"

definition user_holds :: "pref_value \<Rightarrow> user_doc \<Rightarrow> bool" where
  "user_holds p d = (case p of AIPrefs a \<Rightarrow> user_ai d = Some a | StoryPrefs s \<Rightarrow> user_story d = Some s)"

text \<open>
  The sorted array one run of \<open>fetchCalls\<close> computes from what the store answers
  (\<open>sortedCallsData\<close>), when the fetch gets that far.
\<close>

definition fetched :: "history_env \<Rightarrow> CallEntry list option" where
  "fetched ev =
     (case snapshot ev of
        None \<Rightarrow> None
      | Some docs \<Rightarrow> map_option sortCalls (promise_all (map (toCallEntry ev) docs)))"

definition newest_first :: "CallEntry list \<Rightarrow> bool" where
  "newest_first cs = sorted_wrt (\<lambda>a b. lastUpdated b \<le> lastUpdated a) cs"

section \<open>A concrete installation\<close>

text \<open>
  One administrator and three users: the first owns two agents, the second has no
  \<open>agentIds\<close> field, the third owns one agent. The provider rejects every update of
  \<open>agent_2\<close>; everything else answers.
\<close>

definition demo_admin :: admin_doc where
  "demo_admin = \<lparr>admin_name = ''Ada'', admin_email = ''ada@example.org'', admin_createdAt = 1,
                 admin_updatedAt = 1, admin_ai = None, admin_story = None\<rparr>"

definition demo_user :: "string list option \<Rightarrow> user_doc" where
  "demo_user ids = \<lparr>agentIds = ids, user_ai = None, user_story = None, user_updatedAt = 2\<rparr>"

definition demo_store :: store where
  "demo_store =
     \<lparr>admins = [''admin_1'' \<mapsto> demo_admin],
      users = [(''user_1'', demo_user (Some [''agent_1'', ''agent_2''])),
               (''user_2'', demo_user None),
               (''user_3'', demo_user (Some [''agent_3'']))],
      clock = 7\<rparr>"

definition demo_env :: env where
  "demo_env = \<lparr>updateDoc_ok = True, getDocs_ok = True, commit_ok = True, getDoc_ok = True,
               retell_ctor = None, agent_ok = (\<lambda>a. a \<noteq> ''agent_2''), voice_catalog = Some [DEFAULT_VOICE]\<rparr>"

definition demo_view :: ai_view where
  "demo_view = \<lparr>voices = [DEFAULT_VOICE], selectedVoice = Some DEFAULT_VOICE,
                conversationStyle_st = Some Casual, followUpIntensity_st = Some More\<rparr>"

definition demo_ai :: aiPreferences where
  "demo_ai = \<lparr>voice = DEFAULT_VOICE, followUpIntensity = More, conversationStyle = Casual\<rparr>"

definition demo_story_view :: story_view where
  "demo_story_view = \<lparr>narrativeStyle_st = ThirdPerson, lengthPreference_st = Longer,
                      detailRichness_st = FewerDetail\<rparr>"

text \<open>
  A call history of twenty-one records, all of one user, the \<open>i\<close>-th last updated at
  time \<open>i\<close>.
\<close>

definition demo_call :: "nat \<Rightarrow> call_doc" where
  "demo_call i =
     \<lparr>doc_id = ''call'', parent_user = Some ''user_1'', d_callId = None, d_category = ''childhood'',
      d_creationTime = Some (int i), d_initialQuestion = ''Where did you grow up?'',
      d_lastUpdated = Some (int i), d_recording_url = [], d_sessionId = ''s'', d_storyId = ''t'',
      d_transcript = [], d_transcript_object = None, d_updated = False, d_videoComplete = False,
      d_videoUrl = []\<rparr>"

definition demo_history :: history_env where
  "demo_history = \<lparr>snapshot = Some (map demo_call [0..<21]),
                   lookup_user = (\<lambda>u. Lookup_found (Some ''user@example.org''))\<rparr>"

text \<open>
  The same history one call later: a twenty-second record, newer than all others. In
  \<open>demo_growing\<close> the mount's fetch sees the first history and every later fetch the
  second.
\<close>

definition demo_history_later :: history_env where
  "demo_history_later = \<lparr>snapshot = Some (map demo_call [0..<22]),
                         lookup_user = (\<lambda>u. Lookup_found (Some ''user@example.org''))\<rparr>"

definition demo_growing :: "nat \<Rightarrow> history_env" where
  "demo_growing k = (if k = 0 then demo_history else demo_history_later)"

text \<open>A session of the shell: an administrator signs in and out, then a visitor signs in.\<close>

definition session_admin_in :: app_state where
  "session_admin_in = checkAdminStatus True demo_store (authStateChanged (Some ''admin_1'') app_init)"

definition session_admin_out :: app_state where
  "session_admin_out = checkAdminStatus True demo_store (authStateChanged None session_admin_in)"

definition session_visitor_in :: app_state where
  "session_visitor_in = authStateChanged (Some ''visitor_9'') session_admin_out"

section \<open>Properties of the preference save handlers\<close>

lemma agentCalls_append: "agentCalls (xs @ ys) = agentCalls xs @ agentCalls ys"
  by (simp add: agentCalls_def)

lemma agentCalls_Cons:
  "agentCalls (e # tr) = (case e of Agent_update a v ok \<Rightarrow> [(a, ok)] | _ \<Rightarrow> []) @ agentCalls tr"
  by (simp add: agentCalls_def)

lemma agentCalls_updates: "agentCalls (map (\<lambda>a. Agent_update a v (f a)) ids) = map (\<lambda>a. (a, f a)) ids"
  by (induction ids) (simp_all add: agentCalls_def)

lemma agentCalls_logs: "agentCalls (map (\<lambda>a. Console_error (g a)) ids) = []"
  by (induction ids) (simp_all add: agentCalls_def)

lemma agentCalls_userUpdates:
  "agentCalls (fst (userUpdates ev v ids)) = map (\<lambda>a. (a, agent_ok ev a)) ids"
  by (simp add: userUpdates_def agentCalls_append agentCalls_updates agentCalls_logs)

lemma agentsLoop_eq:
  "agentsLoop ev v docs acc =
     (concat (map (\<lambda>d. fst (userUpdates ev v (agentIdsOf (snd d)))) docs),
      acc @ concat (map (\<lambda>d. filter (\<lambda>a. \<not> agent_ok ev a) (agentIdsOf (snd d))) docs))"
proof (induction docs arbitrary: acc)
  case Nil
  show ?case by simp
next
  case (Cons d docs)
  show ?case
  proof (cases "agentIds (snd d)")
    case None
    then show ?thesis using Cons by (simp add: agentIdsOf_def userUpdates_def)
  next
    case (Some ids)
    then show ?thesis using Cons by (simp add: agentIdsOf_def userUpdates_def)
  qed
qed

lemma agentCalls_loop:
  "agentCalls (fst (agentsLoop ev v docs acc)) =
     map (\<lambda>a. (a, agent_ok ev a)) (concat (map (\<lambda>d. agentIdsOf (snd d)) docs))"
  unfolding agentsLoop_eq fst_conv
  by (induction docs) (simp_all add: agentCalls_append agentCalls_userUpdates agentCalls_def[of "[]"])

lemma updateDoc_admin_Some:
  "updateDoc_admin ev st u p = Some st1 \<Longrightarrow>
     updateDoc_ok ev \<and> users st1 = users st \<and>
     (\<exists>d. admins st u = Some d \<and> admins st1 u = Some (set_admin_pref p (clock st) d))"
  by (auto simp: updateDoc_admin_def split: option.splits if_splits)

lemma updateDoc_admin_None:
  "updateDoc_admin ev st u p = None \<longleftrightarrow> admins st u = None \<or> \<not> updateDoc_ok ev"
  by (auto simp: updateDoc_admin_def split: option.splits)

lemma admin_holds_set: "admin_holds p (set_admin_pref p t d)"
  by (cases p) (simp_all add: admin_holds_def set_admin_pref_def)

lemma user_holds_set: "user_holds p (set_user_pref p t d)"
  by (cases p) (simp_all add: user_holds_def set_user_pref_def)

lemma batch_apply_admins: "admins (batch_apply st us p) = admins st"
  by (simp add: batch_apply_def)

lemma batch_apply_users:
  "users (batch_apply st (map fst (users st)) p) = map (\<lambda>(u, d). (u, set_user_pref p (clock st) d)) (users st)"
  by (auto simp: batch_apply_def intro!: map_cong[OF refl] split: prod.splits) force

lemma ai_run_cases:
  assumes cu: "cu = Some u" and val: "ai_value v = Some a"
  shows "AISettings_handleSaveChanges ev cu v st =
     (case updateDoc_admin ev st u (AIPrefs a) of
        None \<Rightarrow> (st, [UpdateDoc_admin u (AIPrefs a) False, Console_error ''Error updating AI preferences:'',
                         Toast Error ''Failed to update some preferences. Please try again.''])
      | Some st1 \<Rightarrow>
          if \<not> getDocs_ok ev
          then (st1, [UpdateDoc_admin u (AIPrefs a) True, GetDocs_users False, Console_error ''Error updating AI preferences:'',
                         Toast Error ''Failed to update some preferences. Please try again.''])
          else (fst (commitBatch ev st1 (users st1) (AIPrefs a)
                                        ''Updated AI preferences successfully''
                                        ''Error updating AI preferences:''
                                        ''Failed to update some preferences. Please try again.''),
                [UpdateDoc_admin u (AIPrefs a) True, GetDocs_users True] @ tryUpdateRetellAgents ev (voice a) (users st1) @
                snd (commitBatch ev st1 (users st1) (AIPrefs a)
                                        ''Updated AI preferences successfully''
                                        ''Error updating AI preferences:''
                                        ''Failed to update some preferences. Please try again.'')))"
proof -
  from val obtain sel cs fu where s: "selectedVoice v = Some sel" "conversationStyle_st v = Some cs"
      "followUpIntensity_st v = Some fu"
      and a: "a = \<lparr>voice = sel, followUpIntensity = fu, conversationStyle = cs\<rparr>"
    by (auto simp: ai_value_def split: option.splits)
  show ?thesis
  proof (cases "updateDoc_admin ev st u (AIPrefs a)")
    case None
    then show ?thesis by (simp add: AISettings_handleSaveChanges_def cu s a)
  next
    case (Some st1)
    show ?thesis
    proof (cases "getDocs_ok ev")
      case False
      then show ?thesis using Some by (simp add: AISettings_handleSaveChanges_def cu s a)
    next
      case True
      then show ?thesis using Some
        by (simp add: AISettings_handleSaveChanges_def cu s a Let_def case_prod_beta)
    qed
  qed
qed

lemma ai_run_guard:
  "cu = None \<or> ai_value v = None \<Longrightarrow> AISettings_handleSaveChanges ev cu v st = (st, [])"
  by (auto simp: AISettings_handleSaveChanges_def ai_value_def split: option.splits)


lemma toasts_append: "toasts (xs @ ys) = toasts xs @ toasts ys"
  by (simp add: toasts_def)

lemma toasts_Cons:
  "toasts (e # tr) = (case e of Toast k m \<Rightarrow> [(k, m)] | _ \<Rightarrow> []) @ toasts tr"
  by (simp add: toasts_def)

lemma toasts_Nil: "toasts [] = []"
  by (simp add: toasts_def)

lemma toasts_userUpdates: "toasts (fst (userUpdates ev v ids)) = []"
  by (induction ids) (auto simp: userUpdates_def toasts_def)

lemma toasts_loop: "toasts (fst (agentsLoop ev v docs acc)) = []"
  unfolding agentsLoop_eq fst_conv
  by (induction docs) (simp_all add: toasts_append toasts_userUpdates toasts_Nil)

lemma try_ctor_fails:
  "retell_ctor ev = Some m \<Longrightarrow>
     tryUpdateRetellAgents ev sel docs =
       [New_Retell False, Console_error ''Error updating Retell agents:'', Toast Error m]"
  by (simp add: tryUpdateRetellAgents_def updateRetellAgents_def)

lemma try_ctor_ok:
  "retell_ctor ev = None \<Longrightarrow>
     tryUpdateRetellAgents ev sel docs =
       New_Retell True # fst (agentsLoop ev (voice_id sel) docs []) @
         (if snd (agentsLoop ev (voice_id sel) docs []) \<noteq> []
          then [Console_error (''Failed to update some agents: '' @ join (snd (agentsLoop ev (voice_id sel) docs [])))]
          else [])"
  by (simp add: tryUpdateRetellAgents_def updateRetellAgents_def case_prod_beta)

lemma toasts_try:
  "toasts (tryUpdateRetellAgents ev sel docs) = (case retell_ctor ev of None \<Rightarrow> [] | Some m \<Rightarrow> [(Error, m)])"
  by (cases "retell_ctor ev")
     (simp_all add: try_ctor_fails try_ctor_ok toasts_Cons toasts_append toasts_loop toasts_Nil)

lemma agentCalls_try:
  "agentCalls (tryUpdateRetellAgents ev sel docs) =
     (case retell_ctor ev of
        None \<Rightarrow> map (\<lambda>a. (a, agent_ok ev a)) (concat (map (\<lambda>d. agentIdsOf (snd d)) docs))
      | Some m \<Rightarrow> [])"
  by (cases "retell_ctor ev")
     (simp_all add: try_ctor_fails try_ctor_ok agentCalls_Cons agentCalls_append agentCalls_loop
        agentCalls_def[of "[]"])

lemma agentCalls_commitBatch: "agentCalls (snd (commitBatch ev st docs p a b c)) = []"
  by (simp add: commitBatch_def agentCalls_def)

lemma agentCalls_mem: "Agent_update a v ok \<in> set tr \<Longrightarrow> (a, ok) \<in> set (agentCalls tr)"
  by (induction tr) (auto simp: agentCalls_Cons agentCalls_def[of "[]"] split: event.splits)


lemma join_failed_mem:
  "retell_ctor ev = None \<Longrightarrow> snd (agentsLoop ev (voice_id sel) docs []) \<noteq> [] \<Longrightarrow>
     Console_error (''Failed to update some agents: '' @ join (snd (agentsLoop ev (voice_id sel) docs [])))
       \<in> set (tryUpdateRetellAgents ev sel docs)"
  by (simp add: try_ctor_ok)

lemma updateDoc_admin_agent_ok [simp]:
  "updateDoc_admin (ev\<lparr>agent_ok := f\<rparr>) st u p = updateDoc_admin ev st u p"
  by (simp add: updateDoc_admin_def split: option.splits)

lemma commitBatch_agent_ok [simp]:
  "commitBatch (ev\<lparr>agent_ok := f\<rparr>) st docs p a b c = commitBatch ev st docs p a b c"
  by (simp add: commitBatch_def)

lemma ai_outcome_independent_of_provider:
  "toasts (snd (AISettings_handleSaveChanges (ev\<lparr>agent_ok := f\<rparr>) cu v st))
     = toasts (snd (AISettings_handleSaveChanges ev cu v st)) \<and>
   fst (AISettings_handleSaveChanges (ev\<lparr>agent_ok := f\<rparr>) cu v st)
     = fst (AISettings_handleSaveChanges ev cu v st)"
proof (cases "cu = None \<or> ai_value v = None")
  case True
  then show ?thesis by (simp add: ai_run_guard)
next
  case False
  then obtain u a where cu: "cu = Some u" and a: "ai_value v = Some a" by auto
  show ?thesis
    by (cases "updateDoc_admin ev st u (AIPrefs a)")
       (simp_all add: ai_run_cases [OF cu a] toasts_append toasts_Cons toasts_try)
qed

lemma toasts_commitBatch:
  "toasts (snd (commitBatch ev st docs p okMsg logMsg failMsg)) =
     (if commit_ok ev then [(Success, okMsg)] else [(Error, failMsg)])"
  by (simp add: commitBatch_def toasts_def)

lemma commitBatch_event:
  "Batch_commit (map fst docs) p (commit_ok ev) \<in> set (snd (commitBatch ev st docs p okMsg logMsg failMsg))"
  by (simp add: commitBatch_def)

lemma commitBatch_store:
  "fst (commitBatch ev st docs p okMsg logMsg failMsg) =
     (if commit_ok ev then batch_apply st (map fst docs) p else st)"
  by (simp add: commitBatch_def)

lemma batch_apply_holds:
  "\<forall>(w, d) \<in> set (users (batch_apply st (map fst (users st)) p)). user_holds p d"
  by (auto simp: batch_apply_users user_holds_set)

lemma batch_apply_ids:
  "map fst (users (batch_apply st (map fst (users st)) p)) = map fst (users st)"
  by (simp add: batch_apply_users case_prod_beta comp_def)

lemma story_run_guard: "StoryPreferences_handleSaveChanges ev None w st = (st, [])"
  by (simp add: StoryPreferences_handleSaveChanges_def)

lemma story_run_cases:
  "StoryPreferences_handleSaveChanges ev (Some u) w st =
     (case updateDoc_admin ev st u (StoryPrefs (story_value w)) of
        None \<Rightarrow> (st, [UpdateDoc_admin u (StoryPrefs (story_value w)) False,
                         Console_error ''Error updating story preferences:'',
                         Toast Error ''Failed to update story preferences''])
      | Some st1 \<Rightarrow>
          if \<not> getDocs_ok ev
          then (st1, [UpdateDoc_admin u (StoryPrefs (story_value w)) True, GetDocs_users False,
                      Console_error ''Error updating story preferences:'',
                      Toast Error ''Failed to update story preferences''])
          else (fst (commitBatch ev st1 (users st1) (StoryPrefs (story_value w))
                       ''Updated story preferences for all users successfully''
                       ''Error updating story preferences:''
                       ''Failed to update story preferences''),
                [UpdateDoc_admin u (StoryPrefs (story_value w)) True, GetDocs_users True] @
                snd (commitBatch ev st1 (users st1) (StoryPrefs (story_value w))
                       ''Updated story preferences for all users successfully''
                       ''Error updating story preferences:''
                       ''Failed to update story preferences'')))"
  by (cases "updateDoc_admin ev st u (StoryPrefs (story_value w))")
     (simp_all add: StoryPreferences_handleSaveChanges_def story_value_def Let_def case_prod_beta)

lemma userUpdates_no_batch: "e \<in> set (fst (userUpdates ev v ids)) \<Longrightarrow> \<not> is_batch e"
  by (auto simp: userUpdates_def is_batch_def)

lemma loop_no_batch: "e \<in> set (fst (agentsLoop ev v docs acc)) \<Longrightarrow> \<not> is_batch e"
  unfolding agentsLoop_eq fst_conv by (auto dest: userUpdates_no_batch)

lemma try_no_batch: "e \<in> set (tryUpdateRetellAgents ev sel docs) \<Longrightarrow> \<not> is_batch e"
  by (cases "retell_ctor ev")
     (auto simp: try_ctor_ok try_ctor_fails is_batch_def dest: loop_no_batch split: if_splits)

lemma commitBatch_shape:
  "snd (commitBatch ev st docs p okMsg logMsg failMsg) =
     Batch_commit (map fst docs) p (commit_ok ev) #
       (if commit_ok ev then [Toast Success okMsg] else [Console_error logMsg, Toast Error failMsg])"
  by (simp add: commitBatch_def)

lemma commitBatch_admins:
  "admins (fst (commitBatch ev st docs p okMsg logMsg failMsg)) = admins st"
  by (simp add: commitBatch_def batch_apply_admins)

lemma commitBatch_failed:
  "\<not> commit_ok ev \<Longrightarrow> fst (commitBatch ev st docs p okMsg logMsg failMsg) = st"
  by (simp add: commitBatch_def)

lemma ai_batch_after_own_write:
  assumes run: "AISettings_handleSaveChanges ev cu v st = (st', tr)"
      and batch: "Batch_commit us q ok \<in> set tr"
  shows "\<exists>u a pre post st1 d. cu = Some u \<and> ai_value v = Some a \<and> q = AIPrefs a \<and>
           tr = pre @ Batch_commit us q ok # post \<and>
           UpdateDoc_admin u q True \<in> set pre \<and> (\<forall>e \<in> set pre. \<not> is_batch e) \<and>
           updateDoc_admin ev st u q = Some st1 \<and> admins st1 u = Some d \<and> admin_holds q d \<and>
           admins st' = admins st1 \<and> (\<not> ok \<longrightarrow> st' = st1)"
proof -
  have guard: "\<not> (cu = None \<or> ai_value v = None)"
  proof
    assume "cu = None \<or> ai_value v = None"
    then have "tr = []" using run ai_run_guard [of cu v ev st] by simp
    then show False using batch by simp
  qed
  then obtain u a where cu: "cu = Some u" and a: "ai_value v = Some a" by auto
  note shape = ai_run_cases [OF cu a, of ev st]
  obtain st1 where w: "updateDoc_admin ev st u (AIPrefs a) = Some st1"
    using run batch shape by (cases "updateDoc_admin ev st u (AIPrefs a)") auto
  have g: "getDocs_ok ev" using run batch shape w by (cases "getDocs_ok ev") auto
  let ?c = "commitBatch ev st1 (users st1) (AIPrefs a) ''Updated AI preferences successfully''
              ''Error updating AI preferences:'' ''Failed to update some preferences. Please try again.''"
  let ?pre = "[UpdateDoc_admin u (AIPrefs a) True, GetDocs_users True] @ tryUpdateRetellAgents ev (voice a) (users st1)"
  have tr: "tr = ?pre @ snd ?c" and st': "st' = fst ?c"
    using run shape w g by simp_all
  have pre: "\<forall>e \<in> set ?pre. \<not> is_batch e"
    by (auto simp: is_batch_def dest: try_no_batch)
  have "Batch_commit us q ok \<in> set (snd ?c)"
    using batch pre unfolding tr by (auto simp: is_batch_def)
  then have q: "q = AIPrefs a" and ok: "ok = commit_ok ev" and us: "us = map fst (users st1)"
    by (auto simp: commitBatch_shape split: if_splits)
  obtain d0 where d: "admins st1 u = Some (set_admin_pref (AIPrefs a) (clock st) d0)"
    using updateDoc_admin_Some [OF w] by auto
  have split: "tr = ?pre @ Batch_commit us q ok # tl (snd ?c)"
    by (simp add: tr commitBatch_shape q ok us)
  have "UpdateDoc_admin u q True \<in> set ?pre" by (simp add: q)
  moreover have "admins st' = admins st1" by (simp add: st' commitBatch_admins)
  moreover have "\<not> ok \<longrightarrow> st' = st1" by (simp add: st' ok commitBatch_failed)
  moreover have "admin_holds q (set_admin_pref (AIPrefs a) (clock st) d0)" by (simp add: q admin_holds_set)
  ultimately show ?thesis using cu a q split pre w d by blast
qed

lemma story_batch_after_own_write:
  assumes run: "StoryPreferences_handleSaveChanges ev cu w st = (st', tr)"
      and batch: "Batch_commit us q ok \<in> set tr"
  shows "\<exists>u pre post st1 d. cu = Some u \<and> q = StoryPrefs (story_value w) \<and>
           tr = pre @ Batch_commit us q ok # post \<and>
           UpdateDoc_admin u q True \<in> set pre \<and> (\<forall>e \<in> set pre. \<not> is_batch e) \<and>
           updateDoc_admin ev st u q = Some st1 \<and> admins st1 u = Some d \<and> admin_holds q d \<and>
           admins st' = admins st1 \<and> (\<not> ok \<longrightarrow> st' = st1)"
proof -
  obtain u where cu: "cu = Some u"
    using run batch by (cases cu) (auto simp: story_run_guard)
  note shape = story_run_cases [of ev u w st]
  let ?p = "StoryPrefs (story_value w)"
  obtain st1 where w: "updateDoc_admin ev st u ?p = Some st1"
    using run batch shape cu by (cases "updateDoc_admin ev st u ?p") auto
  have g: "getDocs_ok ev" using run batch shape w cu by (cases "getDocs_ok ev") auto
  let ?c = "commitBatch ev st1 (users st1) ?p ''Updated story preferences for all users successfully''
              ''Error updating story preferences:'' ''Failed to update story preferences''"
  let ?pre = "[UpdateDoc_admin u ?p True, GetDocs_users True]"
  have tr: "tr = ?pre @ snd ?c" and st': "st' = fst ?c"
    using run shape w g cu by simp_all
  have pre: "\<forall>e \<in> set ?pre. \<not> is_batch e"
    by (auto simp: is_batch_def)
  have "Batch_commit us q ok \<in> set (snd ?c)"
    using batch unfolding tr by auto
  then have q: "q = ?p" and ok: "ok = commit_ok ev" and us: "us = map fst (users st1)"
    by (auto simp: commitBatch_shape split: if_splits)
  obtain d0 where d: "admins st1 u = Some (set_admin_pref ?p (clock st) d0)"
    using updateDoc_admin_Some [OF w] by auto
  have split: "tr = ?pre @ Batch_commit us q ok # tl (snd ?c)"
    by (simp add: tr commitBatch_shape q ok us)
  have "UpdateDoc_admin u q True \<in> set ?pre" by (simp add: q)
  moreover have "admins st' = admins st1" by (simp add: st' commitBatch_admins)
  moreover have "\<not> ok \<longrightarrow> st' = st1" by (simp add: st' ok commitBatch_failed)
  moreover have "admin_holds q (set_admin_pref ?p (clock st) d0)" by (simp add: q admin_holds_set)
  ultimately show ?thesis using cu q split pre w d by blast
qed

lemmas demo_defs = demo_store_def demo_env_def demo_view_def demo_admin_def demo_user_def demo_ai_def

lemma demo_ai_run:
  "AISettings_handleSaveChanges demo_env (Some ''admin_1'') demo_view demo_store =
     (batch_apply (demo_store\<lparr>admins := [''admin_1'' \<mapsto> set_admin_pref (AIPrefs demo_ai) 7 demo_admin], clock := 8\<rparr>)
        [''user_1'', ''user_2'', ''user_3''] (AIPrefs demo_ai),
      [UpdateDoc_admin ''admin_1'' (AIPrefs demo_ai) True, GetDocs_users True, New_Retell True,
       Agent_update ''agent_1'' ''play-Cimo'' True, Agent_update ''agent_2'' ''play-Cimo'' False,
       Console_error ''Error updating agent agent_2:'',
       Agent_update ''agent_3'' ''play-Cimo'' True,
       Console_error ''Failed to update some agents: agent_2'',
       Batch_commit [''user_1'', ''user_2'', ''user_3''] (AIPrefs demo_ai) True,
       Toast Success ''Updated AI preferences successfully''])"
  by (simp add: AISettings_handleSaveChanges_def demo_defs updateDoc_admin_def tryUpdateRetellAgents_def
        updateRetellAgents_def userUpdates_def commitBatch_def DEFAULT_VOICE_def Let_def)

text \<open>
  Claim C1. Take any run of the AI save handler in which some provider update was
  rejected (so the administrator's own record was written and the users enumerated).
  Then the own-record write is in the trace as resolved; the provider was called once
  for every agent id of every enumerated user document, in order, whatever the
  outcomes; \<open>failedUpdates\<close> ends as exactly the rejected ids and is logged; the batch
  over all enumerated user documents is committed to the store; and the notifications
  are those of the same run with no rejection at all. When the store accepts the
  commit, the only notification is the success one and every user document holds the
  new value.
\<close>

theorem fanout_failures_tolerated:
  assumes run: "AISettings_handleSaveChanges ev cu v st = (st', tr)"
      and failure: "Agent_update x vid False \<in> set tr"
  shows "\<exists>u a. cu = Some u \<and> ai_value v = Some a \<and>
           UpdateDoc_admin u (AIPrefs a) True \<in> set tr \<and>
           agentCalls tr = map (\<lambda>i. (i, agent_ok ev i)) (concat (map (\<lambda>d. agentIdsOf (snd d)) (users st))) \<and>
           snd (updateRetellAgents ev (voice a) (users st))
             = Inr (filter (\<lambda>i. \<not> agent_ok ev i) (concat (map (\<lambda>d. agentIdsOf (snd d)) (users st)))) \<and>
           Console_error (''Failed to update some agents: '' @
               join (filter (\<lambda>i. \<not> agent_ok ev i) (concat (map (\<lambda>d. agentIdsOf (snd d)) (users st)))))
             \<in> set tr \<and>
           Batch_commit (map fst (users st)) (AIPrefs a) (commit_ok ev) \<in> set tr \<and>
           (commit_ok ev \<longrightarrow>
              toasts tr = [(Success, ''Updated AI preferences successfully'')] \<and>
              map fst (users st') = map fst (users st) \<and>
              (\<forall>(w, d) \<in> set (users st'). user_holds (AIPrefs a) d)) \<and>
           toasts tr = toasts (snd (AISettings_handleSaveChanges (ev\<lparr>agent_ok := \<lambda>i. True\<rparr>) cu v st))"
proof -
  have guard: "\<not> (cu = None \<or> ai_value v = None)"
  proof
    assume "cu = None \<or> ai_value v = None"
    then have "tr = []" using run ai_run_guard [of cu v ev st] by simp
    then show False using failure by simp
  qed
  then obtain u a where cu: "cu = Some u" and a: "ai_value v = Some a" by auto
  note shape = ai_run_cases [OF cu a, of ev st]
  obtain st1 where w: "updateDoc_admin ev st u (AIPrefs a) = Some st1"
    using run failure shape by (cases "updateDoc_admin ev st u (AIPrefs a)") auto
  have us: "users st1 = users st" using updateDoc_admin_Some [OF w] by simp
  have g: "getDocs_ok ev" using run failure shape w by (cases "getDocs_ok ev") auto
  let ?c = "commitBatch ev st1 (users st) (AIPrefs a) ''Updated AI preferences successfully''
              ''Error updating AI preferences:'' ''Failed to update some preferences. Please try again.''"
  let ?fan = "tryUpdateRetellAgents ev (voice a) (users st)"
  have tr: "tr = [UpdateDoc_admin u (AIPrefs a) True, GetDocs_users True] @ ?fan @ snd ?c"
    and st': "st' = fst ?c"
    using run shape w g us by simp_all
  have calls: "agentCalls tr = agentCalls ?fan"
    by (simp add: tr agentCalls_append agentCalls_Cons agentCalls_commitBatch)
  have ctor: "retell_ctor ev = None"
  proof (cases "retell_ctor ev")
    case (Some m)
    then have "agentCalls tr = []" by (simp add: calls agentCalls_try)
    then show ?thesis using agentCalls_mem [OF failure] by simp
  qed simp
  let ?ids = "concat (map (\<lambda>d. agentIdsOf (snd d)) (users st))"
  let ?failed = "filter (\<lambda>i. \<not> agent_ok ev i) ?ids"
  have c1: "agentCalls tr = map (\<lambda>i. (i, agent_ok ev i)) ?ids"
    by (simp add: calls agentCalls_try ctor)
  have loop: "snd (agentsLoop ev (voice_id (voice a)) (users st) []) = ?failed"
    by (simp add: agentsLoop_eq filter_concat comp_def)
  have c2: "snd (updateRetellAgents ev (voice a) (users st)) = Inr ?failed"
    by (simp add: updateRetellAgents_def ctor case_prod_beta loop)
  have "(x, False) \<in> set (agentCalls tr)" using agentCalls_mem [OF failure] .
  then have ne: "?failed \<noteq> []" unfolding c1 by (auto simp: filter_empty_conv)
  have c3: "Console_error (''Failed to update some agents: '' @ join ?failed) \<in> set tr"
    using join_failed_mem [OF ctor, of "voice a" "users st"] ne by (simp add: tr loop)
  have c4: "Batch_commit (map fst (users st)) (AIPrefs a) (commit_ok ev) \<in> set tr"
    using commitBatch_event [of "users st" "AIPrefs a" ev st1] by (simp add: tr)
  have c0: "UpdateDoc_admin u (AIPrefs a) True \<in> set tr" by (simp add: tr)
  have c5: "commit_ok ev \<Longrightarrow> toasts tr = [(Success, ''Updated AI preferences successfully'')]"
    by (simp add: tr toasts_append toasts_Cons toasts_try ctor toasts_commitBatch toasts_Nil)
  have c6: "commit_ok ev \<Longrightarrow> map fst (users st') = map fst (users st)"
    using batch_apply_ids [of st1 "AIPrefs a"] by (simp add: st' commitBatch_store us)
  have c7: "commit_ok ev \<Longrightarrow> \<forall>(w, d) \<in> set (users st'). user_holds (AIPrefs a) d"
    using batch_apply_holds [of st1 "AIPrefs a"] by (simp add: st' commitBatch_store us)
  have c8: "toasts tr = toasts (snd (AISettings_handleSaveChanges (ev\<lparr>agent_ok := \<lambda>i. True\<rparr>) cu v st))"
    using ai_outcome_independent_of_provider [where ev = ev and f = "\<lambda>i. True" and cu = cu and v = v and st = st] run by simp
  show ?thesis
    using cu a c0 c1 c2 c3 c4 c5 c6 c7 c8 by blast
qed

text \<open>The run of the concrete installation: \<open>agent_2\<close> is rejected, the commit is accepted.\<close>

theorem fanout_failures_tolerated_witness:
  "Agent_update ''agent_2'' ''play-Cimo'' False
     \<in> set (snd (AISettings_handleSaveChanges demo_env (Some ''admin_1'') demo_view demo_store)) \<and>
   commit_ok demo_env \<and>
   agentCalls (snd (AISettings_handleSaveChanges demo_env (Some ''admin_1'') demo_view demo_store))
     = [(''agent_1'', True), (''agent_2'', False), (''agent_3'', True)] \<and>
   toasts (snd (AISettings_handleSaveChanges demo_env (Some ''admin_1'') demo_view demo_store))
     = [(Success, ''Updated AI preferences successfully'')]"
proof -
  let ?r = "AISettings_handleSaveChanges demo_env (Some ''admin_1'') demo_view demo_store"
  have run: "?r = (fst ?r, snd ?r)" by simp
  have m: "Agent_update ''agent_2'' ''play-Cimo'' False \<in> set (snd ?r)"
    by (simp add: demo_ai_run)
  have c: "commit_ok demo_env" by (simp add: demo_env_def)
  have ids: "concat (map (\<lambda>d. agentIdsOf (snd d)) (users demo_store)) = [''agent_1'', ''agent_2'', ''agent_3'']"
    by (simp add: demo_store_def demo_user_def agentIdsOf_def)
  have oks: "agent_ok demo_env ''agent_1'' \<and> \<not> agent_ok demo_env ''agent_2'' \<and> agent_ok demo_env ''agent_3''"
    by (simp add: demo_env_def)
  from fanout_failures_tolerated [OF run m] c ids oks show ?thesis
    using m by auto
qed

text \<open>
  Claim C2. In every run of either save handler, a batch commit in the trace (accepted
  or rejected) comes after the resolved write of the same value to the administrator's
  own record, and no batch commit comes earlier. The store the commit is issued on is
  the one that write produced: there the administrator's record already holds the
  submitted value, and it still holds it afterwards. When the commit is rejected the
  store stays exactly that one. So no run commits the batch without the
  administrator's record holding the new value.
\<close>

theorem own_record_written_before_batch:
  "(AISettings_handleSaveChanges ev cu v st = (st', tr) \<and> Batch_commit us q ok \<in> set tr \<longrightarrow>
      (\<exists>u a pre post st1 d. cu = Some u \<and> ai_value v = Some a \<and> q = AIPrefs a \<and>
           tr = pre @ Batch_commit us q ok # post \<and>
           UpdateDoc_admin u q True \<in> set pre \<and> (\<forall>e \<in> set pre. \<not> is_batch e) \<and>
           updateDoc_admin ev st u q = Some st1 \<and> admins st1 u = Some d \<and> admin_holds q d \<and>
           admins st' = admins st1 \<and> (\<not> ok \<longrightarrow> st' = st1))) \<and>
   (StoryPreferences_handleSaveChanges ev cu w st = (st', tr) \<and> Batch_commit us q ok \<in> set tr \<longrightarrow>
      (\<exists>u pre post st1 d. cu = Some u \<and> q = StoryPrefs (story_value w) \<and>
           tr = pre @ Batch_commit us q ok # post \<and>
           UpdateDoc_admin u q True \<in> set pre \<and> (\<forall>e \<in> set pre. \<not> is_batch e) \<and>
           updateDoc_admin ev st u q = Some st1 \<and> admins st1 u = Some d \<and> admin_holds q d \<and>
           admins st' = admins st1 \<and> (\<not> ok \<longrightarrow> st' = st1)))"
  using ai_batch_after_own_write [of ev cu v st st' tr us q ok]
        story_batch_after_own_write [of ev cu w st st' tr us q ok]
  by blast

lemma demo_ai_run_commit_rejected:
  "AISettings_handleSaveChanges (demo_env\<lparr>commit_ok := False\<rparr>) (Some ''admin_1'') demo_view demo_store =
     (demo_store\<lparr>admins := [''admin_1'' \<mapsto> set_admin_pref (AIPrefs demo_ai) 7 demo_admin], clock := 8\<rparr>,
      [UpdateDoc_admin ''admin_1'' (AIPrefs demo_ai) True, GetDocs_users True, New_Retell True,
       Agent_update ''agent_1'' ''play-Cimo'' True, Agent_update ''agent_2'' ''play-Cimo'' False,
       Console_error ''Error updating agent agent_2:'',
       Agent_update ''agent_3'' ''play-Cimo'' True,
       Console_error ''Failed to update some agents: agent_2'',
       Batch_commit [''user_1'', ''user_2'', ''user_3''] (AIPrefs demo_ai) False,
       Console_error ''Error updating AI preferences:'',
       Toast Error ''Failed to update some preferences. Please try again.''])"
  by (simp add: AISettings_handleSaveChanges_def demo_defs updateDoc_admin_def tryUpdateRetellAgents_def
        updateRetellAgents_def userUpdates_def commitBatch_def DEFAULT_VOICE_def Let_def)

lemma demo_story_run_commit_rejected:
  "StoryPreferences_handleSaveChanges (demo_env\<lparr>commit_ok := False\<rparr>) (Some ''admin_1'') demo_story_view demo_store =
     (demo_store\<lparr>admins := [''admin_1'' \<mapsto> set_admin_pref (StoryPrefs (story_value demo_story_view)) 7 demo_admin],
                 clock := 8\<rparr>,
      [UpdateDoc_admin ''admin_1'' (StoryPrefs (story_value demo_story_view)) True, GetDocs_users True,
       Batch_commit [''user_1'', ''user_2'', ''user_3''] (StoryPrefs (story_value demo_story_view)) False,
       Console_error ''Error updating story preferences:'',
       Toast Error ''Failed to update story preferences''])"
  by (simp add: StoryPreferences_handleSaveChanges_def demo_defs updateDoc_admin_def commitBatch_def
        story_value_def demo_story_view_def Let_def)

text \<open>Both handlers on the concrete installation, with the store rejecting the batch.\<close>

theorem own_record_written_before_batch_witness:
  "Batch_commit [''user_1'', ''user_2'', ''user_3''] (AIPrefs demo_ai) False
     \<in> set (snd (AISettings_handleSaveChanges (demo_env\<lparr>commit_ok := False\<rparr>) (Some ''admin_1'') demo_view demo_store)) \<and>
   (\<exists>d. admins (fst (AISettings_handleSaveChanges (demo_env\<lparr>commit_ok := False\<rparr>) (Some ''admin_1'') demo_view demo_store))
          ''admin_1'' = Some d \<and> admin_holds (AIPrefs demo_ai) d) \<and>
   Batch_commit [''user_1'', ''user_2'', ''user_3''] (StoryPrefs (story_value demo_story_view)) False
     \<in> set (snd (StoryPreferences_handleSaveChanges (demo_env\<lparr>commit_ok := False\<rparr>) (Some ''admin_1'') demo_story_view demo_store)) \<and>
   (\<exists>d. admins (fst (StoryPreferences_handleSaveChanges (demo_env\<lparr>commit_ok := False\<rparr>) (Some ''admin_1'') demo_story_view demo_store))
          ''admin_1'' = Some d \<and> admin_holds (StoryPrefs (story_value demo_story_view)) d)"
proof -
  let ?ev = "demo_env\<lparr>commit_ok := False\<rparr>"
  let ?r = "AISettings_handleSaveChanges ?ev (Some ''admin_1'') demo_view demo_store"
  let ?s = "StoryPreferences_handleSaveChanges ?ev (Some ''admin_1'') demo_story_view demo_store"
  have r: "?r = (fst ?r, snd ?r)" and s: "?s = (fst ?s, snd ?s)" by simp_all
  have m1: "Batch_commit [''user_1'', ''user_2'', ''user_3''] (AIPrefs demo_ai) False \<in> set (snd ?r)"
    by (simp add: demo_ai_run_commit_rejected)
  have m2: "Batch_commit [''user_1'', ''user_2'', ''user_3''] (StoryPrefs (story_value demo_story_view)) False \<in> set (snd ?s)"
    by (simp add: demo_story_run_commit_rejected)
  have a1: "\<exists>d. admins (fst ?r) ''admin_1'' = Some d \<and> admin_holds (AIPrefs demo_ai) d"
    using own_record_written_before_batch
            [of ?ev "Some ''admin_1''" demo_view demo_store "fst ?r" "snd ?r"
                "[''user_1'', ''user_2'', ''user_3'']" "AIPrefs demo_ai" False] r m1
    by auto
  have a2: "\<exists>d. admins (fst ?s) ''admin_1'' = Some d \<and> admin_holds (StoryPrefs (story_value demo_story_view)) d"
    using own_record_written_before_batch
            [of ?ev "Some ''admin_1''" _ demo_store "fst ?s" "snd ?s"
                "[''user_1'', ''user_2'', ''user_3'']" "StoryPrefs (story_value demo_story_view)" False demo_story_view] s m2
    by auto
  show ?thesis using m1 m2 a1 a2 by blast
qed

lemma userUpdates_events:
  "e \<in> set (fst (userUpdates ev v ids)) \<Longrightarrow> (\<exists>a b. e = Agent_update a v b) \<or> (\<exists>m. e = Console_error m)"
  by (auto simp: userUpdates_def)

lemma loop_events:
  "e \<in> set (fst (agentsLoop ev v docs acc)) \<Longrightarrow> (\<exists>a b. e = Agent_update a v b) \<or> (\<exists>m. e = Console_error m)"
  unfolding agentsLoop_eq fst_conv by (auto dest: userUpdates_events)

lemma try_events:
  "e \<in> set (tryUpdateRetellAgents ev sel docs) \<Longrightarrow>
     (\<exists>b. e = New_Retell b) \<or> (\<exists>a b. e = Agent_update a (voice_id sel) b) \<or>
     (\<exists>m. e = Console_error m) \<or> (\<exists>m. e = Toast Error m)"
  by (cases "retell_ctor ev")
     (auto simp: try_ctor_ok try_ctor_fails dest: loop_events split: if_splits)

lemma ai_own_write_rejected:
  assumes run: "AISettings_handleSaveChanges ev cu v st = (st', tr)"
      and rejected: "UpdateDoc_admin u p False \<in> set tr"
  shows "st' = st \<and>
         tr = [UpdateDoc_admin u p False, Console_error ''Error updating AI preferences:'',
               Toast Error ''Failed to update some preferences. Please try again.'']"
proof -
  have guard: "\<not> (cu = None \<or> ai_value v = None)"
  proof
    assume "cu = None \<or> ai_value v = None"
    then have "tr = []" using run ai_run_guard [of cu v ev st] by simp
    then show False using rejected by simp
  qed
  then obtain u' a where cu: "cu = Some u'" and a: "ai_value v = Some a" by auto
  note shape = ai_run_cases [OF cu a, of ev st]
  show ?thesis
  proof (cases "updateDoc_admin ev st u' (AIPrefs a)")
    case None
    then show ?thesis using run rejected shape by auto
  next
    case (Some st1)
    have "UpdateDoc_admin u p False \<notin> set tr"
      using run shape Some
      by (cases "getDocs_ok ev") (auto simp: commitBatch_shape dest: try_events split: if_splits)
    then show ?thesis using rejected by simp
  qed
qed

lemma story_own_write_rejected:
  assumes run: "StoryPreferences_handleSaveChanges ev cu w st = (st', tr)"
      and rejected: "UpdateDoc_admin u p False \<in> set tr"
  shows "st' = st \<and>
         tr = [UpdateDoc_admin u p False, Console_error ''Error updating story preferences:'',
               Toast Error ''Failed to update story preferences'']"
proof -
  obtain u' where cu: "cu = Some u'"
    using run rejected by (cases cu) (auto simp: story_run_guard)
  note shape = story_run_cases [of ev u' w st]
  show ?thesis
  proof (cases "updateDoc_admin ev st u' (StoryPrefs (story_value w))")
    case None
    then show ?thesis using run rejected shape cu by auto
  next
    case (Some st1)
    have "UpdateDoc_admin u p False \<notin> set tr"
      using run shape Some cu
      by (cases "getDocs_ok ev") (auto simp: commitBatch_shape split: if_splits)
    then show ?thesis using rejected by simp
  qed
qed

text \<open>
  Claim C3. In a run of either save handler whose write to the administrator's own
  record is rejected, the store is left as it was, the rejected write is the only call
  to the store or the provider (no enumeration of users, no provider call, no batch),
  and the operator gets exactly one notification, the handler's save-failure error.
\<close>

theorem own_write_failure_aborts:
  "(AISettings_handleSaveChanges ev cu v st = (st', tr) \<and> UpdateDoc_admin u p False \<in> set tr \<longrightarrow>
      st' = st \<and>
      tr = [UpdateDoc_admin u p False, Console_error ''Error updating AI preferences:'',
            Toast Error ''Failed to update some preferences. Please try again.''] \<and>
      filter is_store_or_provider_call tr = [UpdateDoc_admin u p False] \<and>
      toasts tr = [(Error, ''Failed to update some preferences. Please try again.'')]) \<and>
   (StoryPreferences_handleSaveChanges ev cu w st = (st', tr) \<and> UpdateDoc_admin u p False \<in> set tr \<longrightarrow>
      st' = st \<and>
      tr = [UpdateDoc_admin u p False, Console_error ''Error updating story preferences:'',
            Toast Error ''Failed to update story preferences''] \<and>
      filter is_store_or_provider_call tr = [UpdateDoc_admin u p False] \<and>
      toasts tr = [(Error, ''Failed to update story preferences'')])"
proof -
  have "filter is_store_or_provider_call [UpdateDoc_admin u p False, Console_error m, Toast Error n]
          = [UpdateDoc_admin u p False]" for m n
    by (simp add: is_store_or_provider_call_def)
  moreover have "toasts [UpdateDoc_admin u p False, Console_error m, Toast Error n] = [(Error, n)]" for m n
    by (simp add: toasts_def)
  ultimately show ?thesis
    using ai_own_write_rejected [of ev cu v st st' tr u p]
          story_own_write_rejected [of ev cu w st st' tr u p]
    by auto
qed

lemma demo_ai_run_write_rejected:
  "AISettings_handleSaveChanges (demo_env\<lparr>updateDoc_ok := False\<rparr>) (Some ''admin_1'') demo_view demo_store =
     (demo_store,
      [UpdateDoc_admin ''admin_1'' (AIPrefs demo_ai) False, Console_error ''Error updating AI preferences:'',
       Toast Error ''Failed to update some preferences. Please try again.''])"
  by (simp add: AISettings_handleSaveChanges_def demo_defs updateDoc_admin_def)

lemma demo_story_run_write_rejected:
  "StoryPreferences_handleSaveChanges (demo_env\<lparr>updateDoc_ok := False\<rparr>) (Some ''admin_1'') demo_story_view demo_store =
     (demo_store,
      [UpdateDoc_admin ''admin_1'' (StoryPrefs (story_value demo_story_view)) False,
       Console_error ''Error updating story preferences:'',
       Toast Error ''Failed to update story preferences''])"
  by (simp add: StoryPreferences_handleSaveChanges_def demo_defs updateDoc_admin_def story_value_def
        demo_story_view_def)

text \<open>Both handlers on the concrete installation, with the store rejecting \<open>updateDoc\<close>.\<close>

theorem own_write_failure_aborts_witness:
  "UpdateDoc_admin ''admin_1'' (AIPrefs demo_ai) False
     \<in> set (snd (AISettings_handleSaveChanges (demo_env\<lparr>updateDoc_ok := False\<rparr>) (Some ''admin_1'') demo_view demo_store)) \<and>
   filter is_store_or_provider_call
     (snd (AISettings_handleSaveChanges (demo_env\<lparr>updateDoc_ok := False\<rparr>) (Some ''admin_1'') demo_view demo_store))
     = [UpdateDoc_admin ''admin_1'' (AIPrefs demo_ai) False] \<and>
   UpdateDoc_admin ''admin_1'' (StoryPrefs (story_value demo_story_view)) False
     \<in> set (snd (StoryPreferences_handleSaveChanges (demo_env\<lparr>updateDoc_ok := False\<rparr>) (Some ''admin_1'') demo_story_view demo_store)) \<and>
   filter is_store_or_provider_call
     (snd (StoryPreferences_handleSaveChanges (demo_env\<lparr>updateDoc_ok := False\<rparr>) (Some ''admin_1'') demo_story_view demo_store))
     = [UpdateDoc_admin ''admin_1'' (StoryPrefs (story_value demo_story_view)) False]"
proof -
  let ?ev = "demo_env\<lparr>updateDoc_ok := False\<rparr>"
  let ?r = "AISettings_handleSaveChanges ?ev (Some ''admin_1'') demo_view demo_store"
  let ?s = "StoryPreferences_handleSaveChanges ?ev (Some ''admin_1'') demo_story_view demo_store"
  have r: "?r = (fst ?r, snd ?r)" and s: "?s = (fst ?s, snd ?s)" by simp_all
  have m1: "UpdateDoc_admin ''admin_1'' (AIPrefs demo_ai) False \<in> set (snd ?r)"
    by (simp add: demo_ai_run_write_rejected)
  have m2: "UpdateDoc_admin ''admin_1'' (StoryPrefs (story_value demo_story_view)) False \<in> set (snd ?s)"
    by (simp add: demo_story_run_write_rejected)
  have a1: "filter is_store_or_provider_call (snd ?r) = [UpdateDoc_admin ''admin_1'' (AIPrefs demo_ai) False]"
    using own_write_failure_aborts
            [of ?ev "Some ''admin_1''" demo_view demo_store "fst ?r" "snd ?r" "''admin_1''" "AIPrefs demo_ai"] r m1
    by blast
  have a2: "filter is_store_or_provider_call (snd ?s)
              = [UpdateDoc_admin ''admin_1'' (StoryPrefs (story_value demo_story_view)) False]"
    using own_write_failure_aborts
            [of ?ev "Some ''admin_1''" _ demo_store "fst ?s" "snd ?s" "''admin_1''"
                "StoryPrefs (story_value demo_story_view)" demo_story_view] s m2
    by blast
  show ?thesis using m1 m2 a1 a2 by blast
qed

lemma ai_own_write_resolved:
  assumes run: "AISettings_handleSaveChanges ev cu v st = (st', tr)"
      and resolved: "UpdateDoc_admin u p True \<in> set tr"
  shows "\<exists>a d. cu = Some u \<and> ai_value v = Some a \<and> p = AIPrefs a \<and>
               admins st' u = Some d \<and> admin_ai d = Some a"
proof -
  have guard: "\<not> (cu = None \<or> ai_value v = None)"
  proof
    assume "cu = None \<or> ai_value v = None"
    then have "tr = []" using run ai_run_guard [of cu v ev st] by simp
    then show False using resolved by simp
  qed
  then obtain u' a where cu: "cu = Some u'" and a: "ai_value v = Some a" by auto
  note shape = ai_run_cases [OF cu a, of ev st]
  obtain st1 where w: "updateDoc_admin ev st u' (AIPrefs a) = Some st1"
    using run resolved shape by (cases "updateDoc_admin ev st u' (AIPrefs a)") auto
  have eq: "u = u' \<and> p = AIPrefs a" and adm: "admins st' = admins st1"
    using run shape w resolved
    by (cases "getDocs_ok ev"; auto simp: commitBatch_shape commitBatch_admins dest: try_events split: if_splits)+
  obtain d0 where d: "admins st1 u' = Some (set_admin_pref (AIPrefs a) (clock st) d0)"
    using updateDoc_admin_Some [OF w] by auto
  have "admin_ai (set_admin_pref (AIPrefs a) (clock st) d0) = Some a"
    by (simp add: set_admin_pref_def)
  then show ?thesis using cu a eq adm d by auto
qed

lemma story_own_write_resolved:
  assumes run: "StoryPreferences_handleSaveChanges ev cu w st = (st', tr)"
      and resolved: "UpdateDoc_admin u p True \<in> set tr"
  shows "\<exists>d. cu = Some u \<and> p = StoryPrefs (story_value w) \<and>
             admins st' u = Some d \<and> admin_story d = Some (story_value w)"
proof -
  obtain u' where cu: "cu = Some u'"
    using run resolved by (cases cu) (auto simp: story_run_guard)
  note shape = story_run_cases [of ev u' w st]
  let ?p = "StoryPrefs (story_value w)"
  obtain st1 where w: "updateDoc_admin ev st u' ?p = Some st1"
    using run resolved shape cu by (cases "updateDoc_admin ev st u' ?p") auto
  have eq: "u = u' \<and> p = ?p" and adm: "admins st' = admins st1"
    using run shape w resolved cu
    by (cases "getDocs_ok ev"; auto simp: commitBatch_shape commitBatch_admins split: if_splits)+
  obtain d0 where d: "admins st1 u' = Some (set_admin_pref ?p (clock st) d0)"
    using updateDoc_admin_Some [OF w] by auto
  have "admin_story (set_admin_pref ?p (clock st) d0) = Some (story_value w)"
    by (simp add: set_admin_pref_def)
  then show ?thesis using cu eq adm d by auto
qed

lemma fetchData_reads_saved:
  assumes "admins st u = Some d" "admin_ai d = Some a"
      and "getDoc_ok ev" "retell_ctor ev = None" "voice_catalog ev \<noteq> None"
  shows "ai_value (fst (fetchData ev (Some u) st v0)) = Some a"
  using assms by (auto simp: fetchData_def ai_value_def Let_def)

lemma fetchPreferences_reads_saved:
  assumes "admins st u = Some d" "admin_story d = Some s" "getDoc_ok ev"
  shows "story_value (fst (fetchPreferences ev (Some u) st w0)) = s"
  using assms by (simp add: fetchPreferences_def story_value_def)

text \<open>
  Claim C7. After a run of a save handler whose own-record write resolved, the
  administrator's record holds a preference block equal to the submitted one; and a
  fetch of the view from that store, when its own reads resolve, sets the view's
  fields to the submitted values. (The AI view's fetch also reads the voice catalogue;
  when that read rejects, its \<open>catch\<close> puts the defaults into the view, though the
  record holds the saved value.)
\<close>

theorem save_then_fetch_roundtrip:
  "(AISettings_handleSaveChanges ev cu v st = (st', tr) \<and> UpdateDoc_admin u p True \<in> set tr \<longrightarrow>
      (\<exists>a d. ai_value v = Some a \<and> p = AIPrefs a \<and> admins st' u = Some d \<and> admin_ai d = Some a \<and>
         (getDoc_ok ev2 \<and> retell_ctor ev2 = None \<and> voice_catalog ev2 \<noteq> None \<longrightarrow>
            ai_value (fst (fetchData ev2 cu st' v0)) = Some a))) \<and>
   (StoryPreferences_handleSaveChanges ev cu w st = (st', tr) \<and> UpdateDoc_admin u p True \<in> set tr \<longrightarrow>
      (\<exists>d. p = StoryPrefs (story_value w) \<and> admins st' u = Some d \<and> admin_story d = Some (story_value w) \<and>
         (getDoc_ok ev2 \<longrightarrow> story_value (fst (fetchPreferences ev2 cu st' w0)) = story_value w)))"
proof (intro conjI impI)
  assume h: "AISettings_handleSaveChanges ev cu v st = (st', tr) \<and> UpdateDoc_admin u p True \<in> set tr"
  then obtain a d where *: "cu = Some u" "ai_value v = Some a" "p = AIPrefs a"
      "admins st' u = Some d" "admin_ai d = Some a"
    using ai_own_write_resolved [of ev cu v st st' tr u p] by auto
  then show "\<exists>a d. ai_value v = Some a \<and> p = AIPrefs a \<and> admins st' u = Some d \<and> admin_ai d = Some a \<and>
         (getDoc_ok ev2 \<and> retell_ctor ev2 = None \<and> voice_catalog ev2 \<noteq> None \<longrightarrow>
            ai_value (fst (fetchData ev2 cu st' v0)) = Some a)"
    using fetchData_reads_saved [of st' u d a ev2 v0] by auto
next
  assume h: "StoryPreferences_handleSaveChanges ev cu w st = (st', tr) \<and> UpdateDoc_admin u p True \<in> set tr"
  then obtain d where *: "cu = Some u" "p = StoryPrefs (story_value w)"
      "admins st' u = Some d" "admin_story d = Some (story_value w)"
    using story_own_write_resolved [of ev cu w st st' tr u p] by auto
  then show "\<exists>d. p = StoryPrefs (story_value w) \<and> admins st' u = Some d \<and> admin_story d = Some (story_value w) \<and>
         (getDoc_ok ev2 \<longrightarrow> story_value (fst (fetchPreferences ev2 cu st' w0)) = story_value w)"
    using fetchPreferences_reads_saved [of st' u d "story_value w" ev2 w0] by auto
qed

lemma demo_story_run:
  "StoryPreferences_handleSaveChanges demo_env (Some ''admin_1'') demo_story_view demo_store =
     (batch_apply (demo_store\<lparr>admins := [''admin_1'' \<mapsto> set_admin_pref (StoryPrefs (story_value demo_story_view)) 7 demo_admin],
                               clock := 8\<rparr>)
        [''user_1'', ''user_2'', ''user_3''] (StoryPrefs (story_value demo_story_view)),
      [UpdateDoc_admin ''admin_1'' (StoryPrefs (story_value demo_story_view)) True, GetDocs_users True,
       Batch_commit [''user_1'', ''user_2'', ''user_3''] (StoryPrefs (story_value demo_story_view)) True,
       Toast Success ''Updated story preferences for all users successfully''])"
  by (simp add: StoryPreferences_handleSaveChanges_def demo_defs updateDoc_admin_def commitBatch_def
        story_value_def demo_story_view_def Let_def)

text \<open>Save, then fetch into a fresh view, on the concrete installation.\<close>

theorem save_then_fetch_roundtrip_witness:
  "UpdateDoc_admin ''admin_1'' (AIPrefs demo_ai) True
     \<in> set (snd (AISettings_handleSaveChanges demo_env (Some ''admin_1'') demo_view demo_store)) \<and>
   getDoc_ok demo_env \<and> retell_ctor demo_env = None \<and> voice_catalog demo_env \<noteq> None \<and>
   ai_value (fst (fetchData demo_env (Some ''admin_1'')
                    (fst (AISettings_handleSaveChanges demo_env (Some ''admin_1'') demo_view demo_store))
                    ai_view_init)) = ai_value demo_view \<and>
   UpdateDoc_admin ''admin_1'' (StoryPrefs (story_value demo_story_view)) True
     \<in> set (snd (StoryPreferences_handleSaveChanges demo_env (Some ''admin_1'') demo_story_view demo_store)) \<and>
   story_value (fst (fetchPreferences demo_env (Some ''admin_1'')
                       (fst (StoryPreferences_handleSaveChanges demo_env (Some ''admin_1'') demo_story_view demo_store))
                       story_view_init)) = story_value demo_story_view"
proof -
  let ?r = "AISettings_handleSaveChanges demo_env (Some ''admin_1'') demo_view demo_store"
  let ?s = "StoryPreferences_handleSaveChanges demo_env (Some ''admin_1'') demo_story_view demo_store"
  have r: "?r = (fst ?r, snd ?r)" and s: "?s = (fst ?s, snd ?s)" by simp_all
  have m1: "UpdateDoc_admin ''admin_1'' (AIPrefs demo_ai) True \<in> set (snd ?r)"
    by (simp add: demo_ai_run)
  have m2: "UpdateDoc_admin ''admin_1'' (StoryPrefs (story_value demo_story_view)) True \<in> set (snd ?s)"
    by (simp add: demo_story_run)
  have e: "getDoc_ok demo_env \<and> retell_ctor demo_env = None \<and> voice_catalog demo_env \<noteq> None"
    by (simp add: demo_env_def)
  have a1: "ai_value (fst (fetchData demo_env (Some ''admin_1'') (fst ?r) ai_view_init)) = ai_value demo_view"
    using save_then_fetch_roundtrip
            [of demo_env "Some ''admin_1''" demo_view demo_store "fst ?r" "snd ?r" "''admin_1''" "AIPrefs demo_ai"
                demo_env ai_view_init] r m1 e
    by auto
  have a2: "story_value (fst (fetchPreferences demo_env (Some ''admin_1'') (fst ?s) story_view_init))
              = story_value demo_story_view"
    using save_then_fetch_roundtrip
            [of demo_env "Some ''admin_1''" _ demo_store "fst ?s" "snd ?s" "''admin_1''"
                "StoryPrefs (story_value demo_story_view)" demo_env _ demo_story_view story_view_init] s m2 e
    by auto
  show ?thesis using m1 m2 e a1 a2 by blast
qed

lemma try_no_users:
  "tryUpdateRetellAgents ev sel [] =
     (case retell_ctor ev of
        None \<Rightarrow> [New_Retell True]
      | Some m \<Rightarrow> [New_Retell False, Console_error ''Error updating Retell agents:'', Toast Error m])"
  by (cases "retell_ctor ev") (simp_all add: try_ctor_ok try_ctor_fails)

lemma updateDoc_admin_ok:
  "admins st u = Some d \<Longrightarrow> updateDoc_ok ev \<Longrightarrow>
     updateDoc_admin ev st u p =
       Some (st\<lparr>admins := (admins st)(u \<mapsto> set_admin_pref p (clock st) d), clock := Suc (clock st)\<rparr>)"
  by (simp add: updateDoc_admin_def)

text \<open>
  Claim C8. With no user document at all, and a store that accepts the calls made, a
  save through either handler writes the value to the administrator's own record,
  commits an empty batch, calls the provider for no agent, and ends with the success
  notification (for the AI handler it is the only notification when the provider's
  client could be built).
\<close>

theorem save_with_no_users:
  assumes cu: "cu = Some u" and doc: "admins st u = Some d" and none: "users st = []"
      and store_ok: "updateDoc_ok ev" "getDocs_ok ev" "commit_ok ev"
  shows "(ai_value v = Some a \<longrightarrow>
            snd (AISettings_handleSaveChanges ev cu v st) =
              [UpdateDoc_admin u (AIPrefs a) True, GetDocs_users True] @ tryUpdateRetellAgents ev (voice a) [] @
              [Batch_commit [] (AIPrefs a) True, Toast Success ''Updated AI preferences successfully''] \<and>
            agentCalls (snd (AISettings_handleSaveChanges ev cu v st)) = [] \<and>
            (retell_ctor ev = None \<longrightarrow>
               toasts (snd (AISettings_handleSaveChanges ev cu v st))
                 = [(Success, ''Updated AI preferences successfully'')]) \<and>
            admins (fst (AISettings_handleSaveChanges ev cu v st)) u
              = Some (set_admin_pref (AIPrefs a) (clock st) d) \<and>
            admin_holds (AIPrefs a) (set_admin_pref (AIPrefs a) (clock st) d) \<and>
            users (fst (AISettings_handleSaveChanges ev cu v st)) = []) \<and>
         snd (StoryPreferences_handleSaveChanges ev cu w st) =
           [UpdateDoc_admin u (StoryPrefs (story_value w)) True, GetDocs_users True,
            Batch_commit [] (StoryPrefs (story_value w)) True,
            Toast Success ''Updated story preferences for all users successfully''] \<and>
         toasts (snd (StoryPreferences_handleSaveChanges ev cu w st))
           = [(Success, ''Updated story preferences for all users successfully'')] \<and>
         admins (fst (StoryPreferences_handleSaveChanges ev cu w st)) u
           = Some (set_admin_pref (StoryPrefs (story_value w)) (clock st) d) \<and>
         admin_holds (StoryPrefs (story_value w)) (set_admin_pref (StoryPrefs (story_value w)) (clock st) d) \<and>
         users (fst (StoryPreferences_handleSaveChanges ev cu w st)) = []"
proof -
  have ai: "ai_value v = Some a \<Longrightarrow>
      AISettings_handleSaveChanges ev cu v st =
        (batch_apply (st\<lparr>admins := (admins st)(u \<mapsto> set_admin_pref (AIPrefs a) (clock st) d),
                          clock := Suc (clock st)\<rparr>) [] (AIPrefs a),
         [UpdateDoc_admin u (AIPrefs a) True, GetDocs_users True] @ tryUpdateRetellAgents ev (voice a) [] @
         [Batch_commit [] (AIPrefs a) True, Toast Success ''Updated AI preferences successfully''])"
    using store_ok none
    by (simp add: ai_run_cases [OF cu] updateDoc_admin_ok [OF doc] commitBatch_def)
  have story: "StoryPreferences_handleSaveChanges ev cu w st =
        (batch_apply (st\<lparr>admins := (admins st)(u \<mapsto> set_admin_pref (StoryPrefs (story_value w)) (clock st) d),
                          clock := Suc (clock st)\<rparr>) [] (StoryPrefs (story_value w)),
         [UpdateDoc_admin u (StoryPrefs (story_value w)) True, GetDocs_users True,
          Batch_commit [] (StoryPrefs (story_value w)) True,
          Toast Success ''Updated story preferences for all users successfully''])"
    using store_ok none
    by (simp add: cu story_run_cases updateDoc_admin_ok [OF doc] commitBatch_def)
  have calls: "agentCalls ([UpdateDoc_admin u (AIPrefs a) True, GetDocs_users True] @ tryUpdateRetellAgents ev (voice a) [] @
                 [Batch_commit [] (AIPrefs a) True, Toast Success ''Updated AI preferences successfully'']) = []"
    by (simp add: agentCalls_append agentCalls_Cons agentCalls_try agentCalls_def[of "[]"] split: option.splits)
  have ts: "retell_ctor ev = None \<Longrightarrow>
      toasts ([UpdateDoc_admin u (AIPrefs a) True, GetDocs_users True] @ tryUpdateRetellAgents ev (voice a) [] @
                 [Batch_commit [] (AIPrefs a) True, Toast Success ''Updated AI preferences successfully''])
        = [(Success, ''Updated AI preferences successfully'')]"
    by (simp add: toasts_append toasts_Cons toasts_try toasts_Nil)
  show ?thesis
    using calls ts
    by (simp add: ai story batch_apply_def none admin_holds_set toasts_Cons toasts_Nil)
qed

text \<open>The concrete installation without its users.\<close>

theorem save_with_no_users_witness:
  "admins (demo_store\<lparr>users := []\<rparr>) ''admin_1'' = Some demo_admin \<and> users (demo_store\<lparr>users := []\<rparr>) = [] \<and>
   updateDoc_ok demo_env \<and> getDocs_ok demo_env \<and> commit_ok demo_env \<and> retell_ctor demo_env = None \<and>
   ai_value demo_view = Some demo_ai \<and>
   toasts (snd (AISettings_handleSaveChanges demo_env (Some ''admin_1'') demo_view (demo_store\<lparr>users := []\<rparr>)))
     = [(Success, ''Updated AI preferences successfully'')] \<and>
   admins (fst (AISettings_handleSaveChanges demo_env (Some ''admin_1'') demo_view (demo_store\<lparr>users := []\<rparr>))) ''admin_1''
     = Some (demo_admin\<lparr>admin_ai := Some demo_ai, admin_updatedAt := 7\<rparr>) \<and>
   toasts (snd (StoryPreferences_handleSaveChanges demo_env (Some ''admin_1'') demo_story_view (demo_store\<lparr>users := []\<rparr>)))
     = [(Success, ''Updated story preferences for all users successfully'')]"
proof -
  have h: "admins (demo_store\<lparr>users := []\<rparr>) ''admin_1'' = Some demo_admin" "users (demo_store\<lparr>users := []\<rparr>) = []"
     "updateDoc_ok demo_env" "getDocs_ok demo_env" "commit_ok demo_env"
    by (simp_all add: demo_store_def demo_env_def)
  have c: "retell_ctor demo_env = None" by (simp add: demo_env_def)
  have a: "ai_value demo_view = Some demo_ai" by (simp add: ai_value_def demo_view_def demo_ai_def)
  have k: "clock (demo_store\<lparr>users := []\<rparr>) = 7" by (simp add: demo_store_def)
  note t = save_with_no_users [OF refl h, of demo_view demo_ai demo_story_view]
  have t1: "toasts (snd (AISettings_handleSaveChanges demo_env (Some ''admin_1'') demo_view (demo_store\<lparr>users := []\<rparr>)))
     = [(Success, ''Updated AI preferences successfully'')]"
    using t a c by blast
  have t2: "admins (fst (AISettings_handleSaveChanges demo_env (Some ''admin_1'') demo_view (demo_store\<lparr>users := []\<rparr>))) ''admin_1''
     = Some (set_admin_pref (AIPrefs demo_ai) (clock (demo_store\<lparr>users := []\<rparr>)) demo_admin)"
    using t a by blast
  have t3: "toasts (snd (StoryPreferences_handleSaveChanges demo_env (Some ''admin_1'') demo_story_view (demo_store\<lparr>users := []\<rparr>)))
     = [(Success, ''Updated story preferences for all users successfully'')]"
    using t by blast
  show ?thesis
    using h c a by (simp add: t1 t2 t3 k set_admin_pref_def)
qed

lemma concat_skip_empty:
  "f x = [] \<Longrightarrow> concat (map f (filter (\<lambda>r. r \<noteq> x) xs)) = concat (map f xs)"
  by (induction xs) auto

lemma updateDoc_admin_users_update:
  "updateDoc_admin ev (st\<lparr>users := us\<rparr>) u p = map_option (\<lambda>s. s\<lparr>users := us\<rparr>) (updateDoc_admin ev st u p)"
  by (simp add: updateDoc_admin_def split: option.splits)

lemma ai_agentCalls:
  assumes cu: "cu = Some u" and a: "ai_value v = Some a"
  shows "agentCalls (snd (AISettings_handleSaveChanges ev cu v st)) =
           (if updateDoc_admin ev st u (AIPrefs a) \<noteq> None \<and> getDocs_ok ev \<and> retell_ctor ev = None
            then map (\<lambda>i. (i, agent_ok ev i)) (concat (map (\<lambda>d. agentIdsOf (snd d)) (users st)))
            else [])"
proof (cases "updateDoc_admin ev st u (AIPrefs a)")
  case None
  then show ?thesis by (simp add: ai_run_cases [OF cu a] agentCalls_def)
next
  case (Some st1)
  have us: "users st1 = users st" using updateDoc_admin_Some [OF Some] by simp
  show ?thesis
    by (cases "retell_ctor ev")
       (simp_all add: ai_run_cases [OF cu a] Some us agentCalls_append agentCalls_Cons
          agentCalls_try agentCalls_commitBatch agentCalls_def[of "[]"])
qed

lemma in_batch_apply:
  "(w, d) \<in> set (users st) \<Longrightarrow>
     (w, set_user_pref p (clock st) d) \<in> set (users (batch_apply st (map fst (users st)) p))"
  by (force simp: batch_apply_users)

text \<open>
  Claim C6. Take a run of the AI save handler that enumerated the users, and a user
  document whose \<open>agentIds\<close> is absent or empty. The loop's turn for that document
  issues nothing and leaves \<open>failedUpdates\<close> alone; the provider calls of the run are
  those of the same run without the document; yet the committed batch names the
  document, and when the commit is accepted the document holds the new value.
\<close>

theorem record_without_agents:
  assumes run: "AISettings_handleSaveChanges ev cu v st = (st', tr)"
      and reached: "GetDocs_users True \<in> set tr"
      and rec: "(w, d) \<in> set (users st)"
      and none: "agentIds d = None \<or> agentIds d = Some []"
  shows "agentsLoop ev vid ((w, d) # rest) acc = agentsLoop ev vid rest acc \<and>
         agentCalls tr =
           agentCalls (snd (AISettings_handleSaveChanges ev cu v (st\<lparr>users := filter (\<lambda>r. r \<noteq> (w, d)) (users st)\<rparr>))) \<and>
         (\<exists>a. ai_value v = Some a \<and>
              Batch_commit (map fst (users st)) (AIPrefs a) (commit_ok ev) \<in> set tr \<and>
              w \<in> set (map fst (users st)) \<and>
              (commit_ok ev \<longrightarrow> (w, set_user_pref (AIPrefs a) (Suc (clock st)) d) \<in> set (users st')))"
proof -
  have ids: "agentIdsOf d = []" using none by (auto simp: agentIdsOf_def)
  have step: "agentsLoop ev vid ((w, d) # rest) acc = agentsLoop ev vid rest acc"
    using none by (auto simp: userUpdates_def)
  have guard: "\<not> (cu = None \<or> ai_value v = None)"
  proof
    assume "cu = None \<or> ai_value v = None"
    then have "tr = []" using run ai_run_guard [of cu v ev st] by simp
    then show False using reached by simp
  qed
  then obtain u a where cu: "cu = Some u" and a: "ai_value v = Some a" by auto
  note shape = ai_run_cases [OF cu a, of ev st]
  obtain st1 where wr: "updateDoc_admin ev st u (AIPrefs a) = Some st1"
    using run reached shape by (cases "updateDoc_admin ev st u (AIPrefs a)") auto
  have us: "users st1 = users st" and ck: "clock st1 = Suc (clock st)"
    using wr by (auto simp: updateDoc_admin_def split: option.splits if_splits)
  have g: "getDocs_ok ev" using run reached shape wr by (cases "getDocs_ok ev") auto
  let ?c = "commitBatch ev st1 (users st) (AIPrefs a) ''Updated AI preferences successfully''
              ''Error updating AI preferences:'' ''Failed to update some preferences. Please try again.''"
  have tr: "tr = [UpdateDoc_admin u (AIPrefs a) True, GetDocs_users True] @
                 tryUpdateRetellAgents ev (voice a) (users st) @ snd ?c"
    and st': "st' = fst ?c"
    using run shape wr g us by simp_all
  let ?st = "st\<lparr>users := filter (\<lambda>r. r \<noteq> (w, d)) (users st)\<rparr>"
  have "agentCalls tr = agentCalls (snd (AISettings_handleSaveChanges ev cu v st))"
    using run by simp
  also have "\<dots> = agentCalls (snd (AISettings_handleSaveChanges ev cu v ?st))"
    using concat_skip_empty [of "\<lambda>d. agentIdsOf (snd d)" "(w, d)" "users st"] ids
    by (simp add: ai_agentCalls [OF cu a] updateDoc_admin_users_update wr g)
  finally have calls: "agentCalls tr = agentCalls (snd (AISettings_handleSaveChanges ev cu v ?st))" .
  have b: "Batch_commit (map fst (users st)) (AIPrefs a) (commit_ok ev) \<in> set tr"
    using commitBatch_event [of "users st" "AIPrefs a" ev st1] by (simp add: tr)
  have m: "w \<in> set (map fst (users st))" using rec by force
  have upd: "commit_ok ev \<Longrightarrow> (w, set_user_pref (AIPrefs a) (Suc (clock st)) d) \<in> set (users st')"
    using in_batch_apply [of w d st1 "AIPrefs a"] rec
    by (simp add: st' commitBatch_store us ck)
  show ?thesis using step calls a b m upd by blast
qed

text \<open>The second user of the concrete installation has no \<open>agentIds\<close> field.\<close>

theorem record_without_agents_witness:
  "GetDocs_users True \<in> set (snd (AISettings_handleSaveChanges demo_env (Some ''admin_1'') demo_view demo_store)) \<and>
   (''user_2'', demo_user None) \<in> set (users demo_store) \<and>
   agentIds (demo_user None) = None \<and> commit_ok demo_env \<and>
   agentCalls (snd (AISettings_handleSaveChanges demo_env (Some ''admin_1'') demo_view demo_store))
     = agentCalls (snd (AISettings_handleSaveChanges demo_env (Some ''admin_1'') demo_view
                          (demo_store\<lparr>users := filter (\<lambda>r. r \<noteq> (''user_2'', demo_user None)) (users demo_store)\<rparr>))) \<and>
   Batch_commit [''user_1'', ''user_2'', ''user_3''] (AIPrefs demo_ai) True
     \<in> set (snd (AISettings_handleSaveChanges demo_env (Some ''admin_1'') demo_view demo_store)) \<and>
   (''user_2'', set_user_pref (AIPrefs demo_ai) 8 (demo_user None))
     \<in> set (users (fst (AISettings_handleSaveChanges demo_env (Some ''admin_1'') demo_view demo_store)))"
proof -
  let ?r = "AISettings_handleSaveChanges demo_env (Some ''admin_1'') demo_view demo_store"
  have r: "?r = (fst ?r, snd ?r)" by simp
  have m: "GetDocs_users True \<in> set (snd ?r)" by (simp add: demo_ai_run)
  have u: "(''user_2'', demo_user None) \<in> set (users demo_store)" by (simp add: demo_store_def)
  have n: "agentIds (demo_user None) = None \<or> agentIds (demo_user None) = Some []"
    by (simp add: demo_user_def)
  have c: "commit_ok demo_env" by (simp add: demo_env_def)
  have a: "ai_value demo_view = Some demo_ai" by (simp add: ai_value_def demo_view_def demo_ai_def)
  have k: "clock demo_store = 7" "map fst (users demo_store) = [''user_1'', ''user_2'', ''user_3'']"
    by (simp_all add: demo_store_def)
  note t = record_without_agents [OF r m u n, of "''play-Cimo''" "[]" "[]"]
  have t1: "agentCalls (snd ?r) = agentCalls (snd (AISettings_handleSaveChanges demo_env (Some ''admin_1'') demo_view
                          (demo_store\<lparr>users := filter (\<lambda>r. r \<noteq> (''user_2'', demo_user None)) (users demo_store)\<rparr>)))"
    using t by blast
  have t2: "Batch_commit (map fst (users demo_store)) (AIPrefs demo_ai) (commit_ok demo_env) \<in> set (snd ?r) \<and>
            (''user_2'', set_user_pref (AIPrefs demo_ai) (Suc (clock demo_store)) (demo_user None)) \<in> set (users (fst ?r))"
    using t a c by auto
  show ?thesis
    using m u c t1 t2 by (simp add: k demo_user_def)
qed

section \<open>Properties of the authentication error messages\<close>

lemma errorMessages_nonempty: "map_of errorMessages k = Some t \<Longrightarrow> t \<noteq> []"
  by (auto simp: errorMessages_def split: if_splits)

lemma lookupMessage_Str:
  "lookupMessage c = Str t \<longleftrightarrow> (\<exists>k. c = Some k \<and> map_of errorMessages k = Some t)"
  by (auto simp: lookupMessage_def split: option.splits)

lemma lookupMessage_Undefined:
  "lookupMessage c = Undefined \<longleftrightarrow>
     (c = None \<or> (\<exists>k. c = Some k \<and> map_of errorMessages k = None \<and> k \<notin> set Object_prototype_keys))"
  by (auto simp: lookupMessage_def split: option.splits)

lemma lookupMessage_Inherited:
  "lookupMessage c = Inherited n \<longleftrightarrow>
     (c = Some n \<and> map_of errorMessages n = None \<and> n \<in> set Object_prototype_keys)"
  by (auto simp: lookupMessage_def split: option.splits)

lemma toasts_handleAuthError:
  "toasts (handleAuthError e) = (case surfacedMessage e of Str m \<Rightarrow> [(Error, m)] | Inherited n \<Rightarrow> [] | Undefined \<Rightarrow> [(Error, [])])"
  by (simp add: toasts_def handleAuthError_def toast_error_def split: js_value.splits)

lemma surfaced_table:
  "lookupMessage (code e) = Str t \<Longrightarrow> surfacedMessage e = Str t"
proof -
  assume l: "lookupMessage (code e) = Str t"
  then have "t \<noteq> []" using errorMessages_nonempty by (auto simp: lookupMessage_Str)
  then show ?thesis by (simp add: surfacedMessage_def js_or_value_def truthy_def l)
qed

lemma surfaced_own:
  "lookupMessage (code e) = Undefined \<Longrightarrow>
     surfacedMessage e = Str (if message e = [] then genericAuthMessage else message e)"
  by (simp add: surfacedMessage_def js_or_value_def truthy_def)

lemma surfaced_inherited:
  "lookupMessage (code e) = Inherited n \<Longrightarrow> surfacedMessage e = Inherited n"
  by (simp add: surfacedMessage_def js_or_value_def truthy_def)

text \<open>
  An error whose code is a name the table inherits: \<open>toast.error\<close> gets the inherited
  property, and neither the table nor the error's message is read.
\<close>

lemma inherited_name_reaches_toast:
  "handleAuthError \<lparr>code = Some ''constructor'', message = m\<rparr>
     = [Console_error ''Authentication error:'', Toast_inherited Error ''constructor'']"
proof -
  have "lookupMessage (Some ''constructor'') = Inherited ''constructor''"
    by (simp add: lookupMessage_def errorMessages_def Object_prototype_keys_def)
  then show ?thesis
    by (simp add: handleAuthError_def toast_error_def surfaced_inherited)
qed

text \<open>
  Claim C9, as the code has it. When the error's code is a key of the table,
  \<open>handleAuthError\<close> shows one error notification with the table's text. When the
  lookup of the code gives \<open>undefined\<close> (no code, or a code that is neither a key of the
  table nor a name the table inherits), it shows the error's own message when that
  message is not empty, and the fixed text \<open>genericAuthMessage\<close> when it is empty. In
  all these cases the text shown is not empty.
\<close>

theorem auth_error_message:
  "(lookupMessage (code e) = Str t \<longrightarrow> toasts (handleAuthError e) = [(Error, t)]) \<and>
   (lookupMessage (code e) = Undefined \<and> message e \<noteq> [] \<longrightarrow>
      toasts (handleAuthError e) = [(Error, message e)]) \<and>
   (lookupMessage (code e) = Undefined \<and> message e = [] \<longrightarrow>
      toasts (handleAuthError e) = [(Error, genericAuthMessage)]) \<and>
   ((\<forall>n. lookupMessage (code e) \<noteq> Inherited n) \<longrightarrow>
      (\<exists>m. m \<noteq> [] \<and> toasts (handleAuthError e) = [(Error, m)]))"
proof -
  have a: "lookupMessage (code e) = Str t \<Longrightarrow> toasts (handleAuthError e) = [(Error, t)]"
    by (simp add: toasts_handleAuthError surfaced_table)
  have b: "lookupMessage (code e) = Undefined \<Longrightarrow> message e \<noteq> [] \<Longrightarrow>
             toasts (handleAuthError e) = [(Error, message e)]"
    by (simp add: toasts_handleAuthError surfaced_own)
  have c: "lookupMessage (code e) = Undefined \<Longrightarrow> message e = [] \<Longrightarrow>
             toasts (handleAuthError e) = [(Error, genericAuthMessage)]"
    by (simp add: toasts_handleAuthError surfaced_own)
  have d: "\<exists>m. m \<noteq> [] \<and> toasts (handleAuthError e) = [(Error, m)]"
    if "\<forall>n. lookupMessage (code e) \<noteq> Inherited n"
  proof (cases "lookupMessage (code e)")
    case Undefined
    then show ?thesis
      using b c by (cases "message e = []") (auto simp: genericAuthMessage_def)
  next
    case (Str t')
    then have "t' \<noteq> []" using errorMessages_nonempty by (auto simp: lookupMessage_Str)
    then show ?thesis using Str by (simp add: toasts_handleAuthError surfaced_table)
  next
    case (Inherited n)
    then show ?thesis using that by simp
  qed
  show ?thesis using a b c d by blast
qed

text \<open>The cases, each at an error that falls under it.\<close>

theorem auth_error_message_witness:
  "lookupMessage (Some ''auth/weak-password'') = Str ''Password should be at least 6 characters long.'' \<and>
   toasts (handleAuthError \<lparr>code = Some ''auth/weak-password'', message = ''Firebase: Error (auth/weak-password).''\<rparr>)
     = [(Error, ''Password should be at least 6 characters long.'')] \<and>
   lookupMessage (Some ''permission-denied'') = Undefined \<and>
   toasts (handleAuthError \<lparr>code = Some ''permission-denied'', message = ''Missing or insufficient permissions.''\<rparr>)
     = [(Error, ''Missing or insufficient permissions.'')] \<and>
   lookupMessage None = Undefined \<and>
   toasts (handleAuthError \<lparr>code = None, message = []\<rparr>) = [(Error, genericAuthMessage)] \<and>
   (\<exists>m. m \<noteq> [] \<and> toasts (handleAuthError \<lparr>code = None, message = []\<rparr>) = [(Error, m)])"
proof -
  have k1: "lookupMessage (Some ''auth/weak-password'') = Str ''Password should be at least 6 characters long.''"
    by (simp add: lookupMessage_def errorMessages_def)
  have k2: "lookupMessage (Some ''permission-denied'') = Undefined"
    by (simp add: lookupMessage_def errorMessages_def Object_prototype_keys_def)
  have k3: "lookupMessage None = Undefined"
    by (simp add: lookupMessage_def)
  note w1 = auth_error_message [of "\<lparr>code = Some ''auth/weak-password'', message = ''Firebase: Error (auth/weak-password).''\<rparr>"
                                 "''Password should be at least 6 characters long.''"]
  note w2 = auth_error_message [of "\<lparr>code = Some ''permission-denied'', message = ''Missing or insufficient permissions.''\<rparr>" "[]"]
  note w3 = auth_error_message [of "\<lparr>code = None, message = []\<rparr>" "[]"]
  have a: "toasts (handleAuthError \<lparr>code = Some ''auth/weak-password'', message = ''Firebase: Error (auth/weak-password).''\<rparr>)
     = [(Error, ''Password should be at least 6 characters long.'')]"
    using w1 k1 by simp
  have b: "toasts (handleAuthError \<lparr>code = Some ''permission-denied'', message = ''Missing or insufficient permissions.''\<rparr>)
     = [(Error, ''Missing or insufficient permissions.'')]"
    using w2 k2 by simp
  have c: "toasts (handleAuthError \<lparr>code = None, message = []\<rparr>) = [(Error, genericAuthMessage)]"
    using w3 k3 by simp
  have d: "\<exists>m. m \<noteq> [] \<and> toasts (handleAuthError \<lparr>code = None, message = []\<rparr>) = [(Error, m)]"
    using w3 k3 by auto
  show ?thesis using k1 k2 k3 a b c d by blast
qed

text \<open>
  Claim C9 as the specification words it, "for any failure whose code is not in the
  table, the error's own message is surfaced", fails for an error whose code is not a
  key of the table and whose message is empty: the notification carries the fixed
  text, not the (empty) message of the error.
\<close>

theorem auth_error_own_message_counterexample:
  "lookupMessage (code \<lparr>code = Some ''unavailable'', message = []\<rparr>) = Undefined \<and>
   toasts (handleAuthError \<lparr>code = Some ''unavailable'', message = []\<rparr>)
     \<noteq> [(Error, message \<lparr>code = Some ''unavailable'', message = []\<rparr>)]"
  by (simp add: lookupMessage_def errorMessages_def Object_prototype_keys_def toasts_def handleAuthError_def
        toast_error_def surfacedMessage_def js_or_value_def truthy_def genericAuthMessage_def)

section \<open>Properties of the call history\<close>

lemma promise_all_Some:
  "(\<forall>r \<in> set rs. r \<noteq> None) \<Longrightarrow> promise_all rs = Some (map the rs)"
  by (induction rs rule: promise_all.induct) auto

lemma promise_all_length: "promise_all rs = Some xs \<Longrightarrow> length xs = length rs"
  by (induction rs arbitrary: xs rule: promise_all.induct) (auto split: option.splits)

lemma fetched_length:
  "snapshot ev = Some docs \<Longrightarrow> fetched ev = Some full \<Longrightarrow> length full = length docs"
  by (auto simp: fetched_def sortCalls_def dest: promise_all_length)

lemma newest_first_sortCalls: "newest_first (sortCalls cs)"
proof -
  have "sorted (map (\<lambda>c. - lastUpdated c) (sortCalls cs))"
    by (simp add: sortCalls_def)
  then show ?thesis
    by (simp add: newest_first_def sorted_wrt_map)
qed

lemma newest_first_take: "newest_first cs \<Longrightarrow> newest_first (take n cs)"
  by (simp add: newest_first_def sorted_wrt_take)

lemma mset_sortCalls: "mset (sortCalls cs) = mset cs"
  by (simp add: sortCalls_def)

lemma fetched_newest_first: "fetched ev = Some full \<Longrightarrow> newest_first full"
  by (auto simp: fetched_def newest_first_sortCalls split: option.splits)

lemma fetchCalls_trace:
  "snd (fetchCalls isInitial ev v) =
     (case snapshot ev of
        None \<Rightarrow> GetDocs_call_history False # fetch_failed
      | Some docs \<Rightarrow>
          GetDocs_call_history True # concat (map (lookupEvents ev) docs) @
            (case promise_all (map (toCallEntry ev) docs) of None \<Rightarrow> fetch_failed | Some cs \<Rightarrow> []))"
  by (simp add: fetchCalls_def Let_def split: option.splits)

lemma fetchCalls_ok:
  assumes "fetched ev = Some full"
  shows "calls (fst (fetchCalls isInitial ev v)) =
           take (if isInitial then CALLS_PER_PAGE else length (calls v) + CALLS_PER_PAGE) full"
    and "hasMore (fst (fetchCalls isInitial ev v)) =
           ((if isInitial then CALLS_PER_PAGE else length (calls v) + CALLS_PER_PAGE) < length full)"
    and "isLoadingMore (fst (fetchCalls isInitial ev v)) = (isInitial \<and> isLoadingMore v)"
  using assms
  by (auto simp: fetched_def fetchCalls_def fetch_finally_def Let_def split: option.splits)

lemma fetchCalls_failed:
  assumes "fetched ev = None"
  shows "calls (fst (fetchCalls isInitial ev v)) = calls v"
    and "\<exists>m. (Error, m) \<in> set (toasts (snd (fetchCalls isInitial ev v)))"
  using assms
  by (auto simp: fetched_def fetchCalls_def fetch_finally_def fetch_failed_def toasts_def Let_def
           split: option.splits)

lemma loads_invariant:
  "(\<forall>k \<le> n. fetched (evs k) = Some full) \<Longrightarrow>
     calls (loads evs n) = take (Suc n * CALLS_PER_PAGE) full \<and>
     hasMore (loads evs n) = (Suc n * CALLS_PER_PAGE < length full) \<and>
     \<not> isLoadingMore (loads evs n)"
proof (induction n)
  case 0
  then have f: "fetched (evs 0) = Some full" by simp
  show ?case
    by (simp add: fetchCalls_ok [OF f] history_view_init_def)
next
  case (Suc n)
  then have f: "fetched (evs (Suc n)) = Some full" by simp
  have ih: "calls (loads evs n) = take (Suc n * CALLS_PER_PAGE) full \<and>
     hasMore (loads evs n) = (Suc n * CALLS_PER_PAGE < length full) \<and>
     \<not> isLoadingMore (loads evs n)"
    using Suc by simp
  show ?case
  proof (cases "hasMore (loads evs n)")
    case True
    then have len: "length (calls (loads evs n)) = Suc n * CALLS_PER_PAGE"
      using ih by simp
    show ?thesis
      using ih True len by (simp add: handleLoadMore_def fetchCalls_ok [OF f] add.commute)
  next
    case False
    then have all: "length full \<le> Suc n * CALLS_PER_PAGE" using ih by simp
    then show ?thesis
      using ih False by (simp add: handleLoadMore_def)
  qed
qed

lemma demo_entry:
  "toCallEntry ev (demo_call i) \<noteq> None \<and> lastUpdated (the (toCallEntry ev (demo_call i))) = int i"
  by (simp add: toCallEntry_def demo_call_def)

lemma demo_fetched_upto:
  assumes "snapshot ev = Some (map demo_call [0..<n])"
  shows "\<exists>full. fetched ev = Some full \<and> length full = n \<and> lastUpdated ` set full = int ` {0..<n}"
proof -
  let ?rs = "map (toCallEntry ev) (map demo_call [0..<n])"
  have "\<forall>r \<in> set ?rs. r \<noteq> None" using demo_entry by auto
  then have p: "promise_all ?rs = Some (map the ?rs)" by (rule promise_all_Some)
  then have f: "fetched ev = Some (sortCalls (map the ?rs))"
    using assms by (simp add: fetched_def)
  have "lastUpdated ` set (sortCalls (map the ?rs)) = int ` {0..<n}"
    using demo_entry by (auto simp: sortCalls_def image_iff)
  then show ?thesis using f by (simp add: sortCalls_def)
qed

lemma demo_fetched: "\<exists>full. fetched demo_history = Some full \<and> length full = 21"
  using demo_fetched_upto [of demo_history 21] by (auto simp: demo_history_def)

lemma newest_first_hd:
  "newest_first cs \<Longrightarrow> x \<in> set cs \<Longrightarrow> lastUpdated x \<le> lastUpdated (hd cs)"
  by (cases cs) (auto simp: newest_first_def)

lemma newest_hd_is_max:
  assumes "newest_first cs" and "lastUpdated ` set cs = int ` {0..<Suc n}"
  shows "lastUpdated (hd cs) = int n"
proof -
  have ne: "cs \<noteq> []" using assms(2) by auto
  then have "hd cs \<in> set cs" by simp
  then have "lastUpdated (hd cs) \<in> int ` {0..<Suc n}" using assms(2) by blast
  then have up: "lastUpdated (hd cs) \<le> int n" by auto
  have "int n \<in> lastUpdated ` set cs" using assms(2) by auto
  then obtain x where "x \<in> set cs" "lastUpdated x = int n" by auto
  then have "int n \<le> lastUpdated (hd cs)" using newest_first_hd [OF assms(1)] by force
  then show ?thesis using up by simp
qed

text \<open>
  Claim C5, as the code has it. Let every fetch up to the \<open>n+1\<close>-th "load more" succeed
  and compute the same sorted array \<open>full\<close> of \<open>S\<close> records, and let \<open>P\<close> be
  \<open>CALLS_PER_PAGE\<close>. Then the first load exposes \<open>min S P\<close> records; the \<open>n+1\<close>-th "load
  more" exposes \<open>min S (previous + P)\<close> records; every exposed list up to there is a
  prefix of \<open>full\<close> and of the next exposed list, so it is newest first and holds no
  record more often than the result set does.
\<close>

theorem pagination_windows:
  assumes f: "\<forall>k \<le> Suc n. fetched (evs k) = Some full"
  shows "length (calls (loads evs 0)) = min (length full) CALLS_PER_PAGE \<and>
         length (calls (loads evs (Suc n))) = min (length full) (length (calls (loads evs n)) + CALLS_PER_PAGE) \<and>
         prefix (calls (loads evs n)) full \<and>
         prefix (calls (loads evs (Suc n))) full \<and>
         prefix (calls (loads evs n)) (calls (loads evs (Suc n))) \<and>
         newest_first full \<and> newest_first (calls (loads evs n)) \<and>
         newest_first (calls (loads evs (Suc n))) \<and>
         mset (calls (loads evs n)) \<subseteq># mset full \<and>
         (distinct full \<longrightarrow> distinct (calls (loads evs n)))"
proof -
  have c: "calls (loads evs k) = take (Suc k * CALLS_PER_PAGE) full" if "k \<le> Suc n" for k
    using loads_invariant [of k evs full] f that by simp
  have c0: "calls (loads evs 0) = take (Suc 0 * CALLS_PER_PAGE) full"
    and cn: "calls (loads evs n) = take (Suc n * CALLS_PER_PAGE) full"
    and cs: "calls (loads evs (Suc n)) = take (Suc (Suc n) * CALLS_PER_PAGE) full"
    using c [of 0] c [of n] c [of "Suc n"] by (simp_all del: loads.simps)
  have l0: "length (calls (loads evs 0)) = min (length full) CALLS_PER_PAGE"
    unfolding c0 by simp
  have l1: "length (calls (loads evs (Suc n))) = min (length full) (length (calls (loads evs n)) + CALLS_PER_PAGE)"
    unfolding cn cs by (simp add: min_def)
  have p1: "prefix (calls (loads evs n)) full"
    unfolding cn by (rule take_is_prefix)
  have p1': "prefix (calls (loads evs (Suc n))) full"
    unfolding cs by (rule take_is_prefix)
  have p2: "prefix (calls (loads evs n)) (calls (loads evs (Suc n)))"
  proof -
    have "take (Suc n * CALLS_PER_PAGE) full
            = take (Suc n * CALLS_PER_PAGE) (take (Suc (Suc n) * CALLS_PER_PAGE) full)"
      by (simp add: min_def)
    then show ?thesis unfolding cn cs by (metis take_is_prefix)
  qed
  have "fetched (evs 0) = Some full" using f by simp
  then have s0: "newest_first full" by (rule fetched_newest_first)
  have s1: "newest_first (calls (loads evs n))"
    unfolding cn by (rule newest_first_take [OF s0])
  have s2: "newest_first (calls (loads evs (Suc n)))"
    unfolding cs by (rule newest_first_take [OF s0])
  have m: "mset (calls (loads evs n)) \<subseteq># mset full"
    unfolding cn by (metis append_take_drop_id mset_append mset_subset_eq_add_left)
  have d: "distinct full \<longrightarrow> distinct (calls (loads evs n))"
    unfolding cn by simp
  show ?thesis using l0 l1 p1 p1' p2 s0 s1 s2 m d by blast
qed

text \<open>Twenty-one records that stay as they are: the first load shows twenty, one "load more" shows all.\<close>

theorem pagination_windows_witness:
  "(\<exists>full. (\<forall>k \<le> Suc 0. fetched ((\<lambda>k. demo_history) k) = Some full) \<and> length full = 21) \<and>
   length (calls (loads (\<lambda>k. demo_history) 0)) = 20 \<and>
   length (calls (loads (\<lambda>k. demo_history) (Suc 0))) = 21 \<and>
   prefix (calls (loads (\<lambda>k. demo_history) 0)) (calls (loads (\<lambda>k. demo_history) (Suc 0))) \<and>
   newest_first (calls (loads (\<lambda>k. demo_history) (Suc 0)))"
proof -
  obtain full where f: "fetched demo_history = Some full" and l: "length full = 21"
    using demo_fetched by blast
  have h: "\<forall>k \<le> Suc 0. fetched ((\<lambda>k. demo_history) k) = Some full" using f by simp
  note t = pagination_windows [OF h]
  have a: "length (calls (loads (\<lambda>k. demo_history) 0)) = min 21 CALLS_PER_PAGE"
    using t l by simp
  have b: "length (calls (loads (\<lambda>k. demo_history) (Suc 0)))
             = min 21 (length (calls (loads (\<lambda>k. demo_history) 0)) + CALLS_PER_PAGE)"
    using t l by simp
  have c: "prefix (calls (loads (\<lambda>k. demo_history) 0)) (calls (loads (\<lambda>k. demo_history) (Suc 0)))"
    using t by blast
  have d: "newest_first (calls (loads (\<lambda>k. demo_history) (Suc 0)))"
    using t by blast
  have a': "length (calls (loads (\<lambda>k. demo_history) 0)) = 20"
    using a by (simp add: CALLS_PER_PAGE_def)
  have b': "length (calls (loads (\<lambda>k. demo_history) (Suc 0))) = 21"
    using b a' by (simp add: CALLS_PER_PAGE_def)
  show ?thesis using h l a' b' c d by blast
qed

text \<open>
  Claim C5 as the specification words it fails when the store changes between two
  loads, since every "load more" reads it anew. The mount's fetch sees twenty-one
  records (last updated at 0 to 20) and exposes the newest twenty, from 20 down. One
  call is recorded (last updated at 21), then "load more" is activated: it exposes
  all twenty-two records, from 21 down, which is neither \<open>min 21 (20 + 20)\<close> records
  nor an extension of the list exposed before.
\<close>

theorem pagination_windows_counterexample:
  "length (calls (loads demo_growing 0)) = 20 \<and>
   lastUpdated (hd (calls (loads demo_growing 0))) = 20 \<and>
   length (calls (loads demo_growing (Suc 0))) = 22 \<and>
   lastUpdated (hd (calls (loads demo_growing (Suc 0)))) = 21 \<and>
   \<not> prefix (calls (loads demo_growing 0)) (calls (loads demo_growing (Suc 0)))"
proof -
  obtain full0 where f0: "fetched (demo_growing 0) = Some full0" and l0: "length full0 = 21"
      and k0: "lastUpdated ` set full0 = int ` {0..<Suc 20}"
    using demo_fetched_upto [of "demo_growing 0" 21] by (auto simp: demo_growing_def demo_history_def)
  obtain full1 where f1: "fetched (demo_growing (Suc 0)) = Some full1" and l1: "length full1 = 22"
      and k1: "lastUpdated ` set full1 = int ` {0..<Suc 21}"
    using demo_fetched_upto [of "demo_growing (Suc 0)" 22] by (auto simp: demo_growing_def demo_history_later_def)
  have w0: "calls (loads demo_growing 0) = take 20 full0"
    and more: "hasMore (loads demo_growing 0)" and idle: "\<not> isLoadingMore (loads demo_growing 0)"
    using loads_invariant [of 0 demo_growing full0] f0 l0 by (simp_all add: CALLS_PER_PAGE_def del: loads.simps)
  have len0: "length (calls (loads demo_growing 0)) = 20" by (simp add: w0 l0 del: loads.simps)
  have step: "loads demo_growing (Suc 0) = fst (handleLoadMore (demo_growing (Suc 0)) (loads demo_growing 0))"
    by (rule loads.simps(2))
  have "calls (loads demo_growing (Suc 0))
          = take (length (calls (loads demo_growing 0)) + CALLS_PER_PAGE) full1"
    unfolding step
    using more idle fetchCalls_ok(1) [OF f1, of False "loads demo_growing 0"]
    by (simp add: handleLoadMore_def del: loads.simps)
  then have w1: "calls (loads demo_growing (Suc 0)) = full1"
    by (simp add: len0 l1 CALLS_PER_PAGE_def del: loads.simps)
  have ne0: "full0 \<noteq> []" using l0 by auto
  then have hd0: "hd (take 20 full0) = hd full0" by (cases full0) simp_all
  have h0: "lastUpdated (hd (calls (loads demo_growing 0))) = 20"
    using newest_hd_is_max [OF fetched_newest_first [OF f0] k0] by (simp add: w0 hd0 del: loads.simps)
  have h1: "lastUpdated (hd (calls (loads demo_growing (Suc 0)))) = 21"
    using newest_hd_is_max [OF fetched_newest_first [OF f1] k1] by (simp add: w1 del: loads.simps)
  have np: "\<not> prefix (calls (loads demo_growing 0)) (calls (loads demo_growing (Suc 0)))"
  proof
    assume p: "prefix (calls (loads demo_growing 0)) (calls (loads demo_growing (Suc 0)))"
    have "calls (loads demo_growing 0) \<noteq> []" using len0 by auto
    then have "hd (calls (loads demo_growing 0)) = hd (calls (loads demo_growing (Suc 0)))"
      using p by (metis hd_append2 prefixE)
    then show False using h0 h1 by simp
  qed
  show ?thesis using len0 h0 h1 np by (simp add: w1 l1 del: loads.simps)
qed

lemma handleLoadMore_enabled:
  "\<not> isLoadingMore v \<Longrightarrow> hasMore v \<Longrightarrow> handleLoadMore ev v = fetchCalls False ev v"
  by (simp add: handleLoadMore_def)

lemma fetchCalls_trace_head:
  "\<exists>ok rest. snd (fetchCalls isInitial ev v) = GetDocs_call_history ok # rest"
  by (cases "snapshot ev") (auto simp: fetchCalls_trace)

lemma fetchCalls_trace_same:
  "snd (fetchCalls isInitial ev v) = snd (fetchCalls isInitial' ev v')"
  by (simp add: fetchCalls_trace)

text \<open>
  Claim C4, as the code has it. When "load more" is enabled (no load in progress, more
  records remain) it runs \<open>fetchCalls\<close> again: the same calls as the mount's fetch, that
  is the read of the whole \<open>call_history\<close> collection group first and the user lookup
  of every record. From the fresh, freshly sorted array it exposes the first
  \<open>previous + CALLS_PER_PAGE\<close> records; when the fetch fails the exposed list stays.
  When "load more" is not enabled it does nothing.
\<close>

theorem load_more_runs_full_fetch:
  "(\<not> isLoadingMore v \<and> hasMore v \<longrightarrow>
      snd (handleLoadMore ev v) = snd (fetchCalls True ev history_view_init) \<and>
      (\<exists>ok rest. snd (handleLoadMore ev v) = GetDocs_call_history ok # rest) \<and>
      (\<forall>d docs. snapshot ev = Some docs \<and> d \<in> set docs \<longrightarrow>
         set (lookupEvents ev d) \<subseteq> set (snd (handleLoadMore ev v))) \<and>
      (fetched ev = Some full \<longrightarrow>
         calls (fst (handleLoadMore ev v)) = take (length (calls v) + CALLS_PER_PAGE) full) \<and>
      (fetched ev = None \<longrightarrow> calls (fst (handleLoadMore ev v)) = calls v)) \<and>
   (isLoadingMore v \<or> \<not> hasMore v \<longrightarrow> handleLoadMore ev v = (v, []))"
proof -
  have idle: "isLoadingMore v \<or> \<not> hasMore v \<longrightarrow> handleLoadMore ev v = (v, [])"
    by (auto simp: handleLoadMore_def)
  have run: "\<not> isLoadingMore v \<and> hasMore v \<longrightarrow>
      snd (handleLoadMore ev v) = snd (fetchCalls True ev history_view_init) \<and>
      (\<exists>ok rest. snd (handleLoadMore ev v) = GetDocs_call_history ok # rest) \<and>
      (\<forall>d docs. snapshot ev = Some docs \<and> d \<in> set docs \<longrightarrow>
         set (lookupEvents ev d) \<subseteq> set (snd (handleLoadMore ev v))) \<and>
      (fetched ev = Some full \<longrightarrow>
         calls (fst (handleLoadMore ev v)) = take (length (calls v) + CALLS_PER_PAGE) full) \<and>
      (fetched ev = None \<longrightarrow> calls (fst (handleLoadMore ev v)) = calls v)"
  proof
    assume en: "\<not> isLoadingMore v \<and> hasMore v"
    then have h: "handleLoadMore ev v = fetchCalls False ev v"
      by (simp add: handleLoadMore_enabled)
    have 1: "snd (handleLoadMore ev v) = snd (fetchCalls True ev history_view_init)"
      unfolding h by (rule fetchCalls_trace_same)
    have 2: "\<exists>ok rest. snd (handleLoadMore ev v) = GetDocs_call_history ok # rest"
      unfolding h by (rule fetchCalls_trace_head)
    have 3: "\<forall>d docs. snapshot ev = Some docs \<and> d \<in> set docs \<longrightarrow>
               set (lookupEvents ev d) \<subseteq> set (snd (handleLoadMore ev v))"
      unfolding h by (auto simp: fetchCalls_trace)
    have 4: "fetched ev = Some full \<longrightarrow>
               calls (fst (handleLoadMore ev v)) = take (length (calls v) + CALLS_PER_PAGE) full"
      unfolding h using fetchCalls_ok(1) [of ev full False v] by simp
    have 5: "fetched ev = None \<longrightarrow> calls (fst (handleLoadMore ev v)) = calls v"
      unfolding h using fetchCalls_failed(1) [of ev False v] by simp
    show "snd (handleLoadMore ev v) = snd (fetchCalls True ev history_view_init) \<and>
      (\<exists>ok rest. snd (handleLoadMore ev v) = GetDocs_call_history ok # rest) \<and>
      (\<forall>d docs. snapshot ev = Some docs \<and> d \<in> set docs \<longrightarrow>
         set (lookupEvents ev d) \<subseteq> set (snd (handleLoadMore ev v))) \<and>
      (fetched ev = Some full \<longrightarrow>
         calls (fst (handleLoadMore ev v)) = take (length (calls v) + CALLS_PER_PAGE) full) \<and>
      (fetched ev = None \<longrightarrow> calls (fst (handleLoadMore ev v)) = calls v)"
      using 1 2 3 4 5 by blast
  qed
  show ?thesis using run idle by blast
qed

lemma demo_first_load:
  "hasMore (loads (\<lambda>k. demo_history) 0) \<and> \<not> isLoadingMore (loads (\<lambda>k. demo_history) 0) \<and>
   length (calls (loads (\<lambda>k. demo_history) 0)) = 20"
proof -
  obtain full where f: "fetched demo_history = Some full" and l: "length full = 21"
    using demo_fetched by blast
  show ?thesis
    using loads_invariant [of 0 "\<lambda>k. demo_history" full] f l by (simp add: CALLS_PER_PAGE_def del: loads.simps)
qed

text \<open>After the first load of twenty-one records; and after the second, when nothing remains.\<close>

theorem load_more_runs_full_fetch_witness:
  "\<not> isLoadingMore (loads (\<lambda>k. demo_history) 0) \<and> hasMore (loads (\<lambda>k. demo_history) 0) \<and>
   (\<exists>full. fetched demo_history = Some full \<and>
      calls (fst (handleLoadMore demo_history (loads (\<lambda>k. demo_history) 0))) = take 40 full) \<and>
   snd (handleLoadMore demo_history (loads (\<lambda>k. demo_history) 0))
     = snd (fetchCalls True demo_history history_view_init) \<and>
   handleLoadMore demo_history (loads (\<lambda>k. demo_history) (Suc 0)) = (loads (\<lambda>k. demo_history) (Suc 0), [])"
proof -
  obtain full where f: "fetched demo_history = Some full" and l: "length full = 21"
    using demo_fetched by blast
  note first = demo_first_load
  have more: "\<not> hasMore (loads (\<lambda>k. demo_history) (Suc 0))"
    using loads_invariant [of "Suc 0" "\<lambda>k. demo_history" full] f l by (simp add: CALLS_PER_PAGE_def del: loads.simps)
  have a: "calls (fst (handleLoadMore demo_history (loads (\<lambda>k. demo_history) 0))) = take 40 full"
    using load_more_runs_full_fetch [of "loads (\<lambda>k. demo_history) 0" demo_history full] first f
    by (simp add: CALLS_PER_PAGE_def del: loads.simps)
  have b: "snd (handleLoadMore demo_history (loads (\<lambda>k. demo_history) 0))
             = snd (fetchCalls True demo_history history_view_init)"
    using load_more_runs_full_fetch [of "loads (\<lambda>k. demo_history) 0" demo_history full] first
    by blast
  have c: "handleLoadMore demo_history (loads (\<lambda>k. demo_history) (Suc 0)) = (loads (\<lambda>k. demo_history) (Suc 0), [])"
    using load_more_runs_full_fetch [of "loads (\<lambda>k. demo_history) (Suc 0)" demo_history full] more
    by blast
  show ?thesis using first f a b c by blast
qed

text \<open>
  Claim C4 as the specification words it, "load more performs no additional network
  fetch", fails: after the first load of twenty-one records "load more" is enabled,
  and activating it reads the collection group and a user document again.
\<close>

theorem load_more_no_fetch_counterexample:
  "\<not> isLoadingMore (loads (\<lambda>k. demo_history) 0) \<and> hasMore (loads (\<lambda>k. demo_history) 0) \<and>
   GetDocs_call_history True \<in> set (snd (handleLoadMore demo_history (loads (\<lambda>k. demo_history) 0))) \<and>
   GetDoc_user ''user_1'' \<in> set (snd (handleLoadMore demo_history (loads (\<lambda>k. demo_history) 0)))"
proof -
  note first = demo_first_load
  have h: "handleLoadMore demo_history (loads (\<lambda>k. demo_history) 0) = fetchCalls False demo_history (loads (\<lambda>k. demo_history) 0)"
    using first by (simp add: handleLoadMore_enabled del: loads.simps)
  have m: "demo_call 0 \<in> set (map demo_call [0..<21])" by simp
  have "GetDoc_user ''user_1'' \<in> set (lookupEvents demo_history (demo_call 0))"
    by (simp add: lookupEvents_def demo_call_def)
  then have u: "GetDoc_user ''user_1'' \<in> set (concat (map (lookupEvents demo_history) (map demo_call [0..<21])))"
    using m by (auto simp del: upt_rec_numeral map_map)
  have "snd (fetchCalls False demo_history (loads (\<lambda>k. demo_history) 0)) =
          GetDocs_call_history True # concat (map (lookupEvents demo_history) (map demo_call [0..<21])) @
            (case promise_all (map (toCallEntry demo_history) (map demo_call [0..<21])) of
               None \<Rightarrow> fetch_failed | Some cs \<Rightarrow> [])"
    by (simp add: fetchCalls_trace demo_history_def)
  then show ?thesis using first h u by (simp del: loads.simps)
qed

section \<open>Properties of the application shell\<close>

text \<open>
  What the two checks achieve when the lookup resolves: the shell shows the protected
  routes only to a user with an administrator record, and a user without one is signed
  out by both.
\<close>

lemma resolved_check_gates_protected_view:
  "App_render (checkAdminStatus True st s) = ProtectedRoutes \<Longrightarrow>
     \<exists>u d. user (checkAdminStatus True st s) = Some u \<and> admins st u = Some d"
  by (auto simp: App_render_def checkAdminStatus_def getDoc_admin_def split: option.splits if_splits)

lemma missing_admin_is_signed_out:
  "user s = Some u \<Longrightarrow> admins st u = None \<Longrightarrow> \<not> loading s \<Longrightarrow>
     user (checkAdminStatus True st s) = None \<and> App_render (checkAdminStatus True st s) = AuthRoutes \<and>
     signIn_verify True st u err = (None, [GetDoc_admin u True, Toast Error ''Access denied. Admin privileges required.''])"
  by (simp add: App_render_def checkAdminStatus_def getDoc_admin_def signIn_verify_def)

text \<open>
  Claim C10 at a session the shell allows. \<open>adminData\<close> is set when an administrator is
  recognised and never cleared. After an administrator has signed in and out, a
  visitor without an administrator record signs in: the render that follows the change
  of \<open>user\<close> shows the protected routes. When the two lookups of \<open>admins/{uid}\<close> are then
  rejected (the shell's \<open>catch\<close> only logs, the sign-in handler only shows the error),
  the visitor stays signed in and the protected routes stay on screen.
\<close>

theorem stale_admin_data_shows_protected_view:
  "admins demo_store ''visitor_9'' = None \<and>
   user session_visitor_in = Some ''visitor_9'' \<and>
   App_render session_visitor_in = ProtectedRoutes \<and>
   user (checkAdminStatus False demo_store session_visitor_in) = Some ''visitor_9'' \<and>
   App_render (checkAdminStatus False demo_store session_visitor_in) = ProtectedRoutes \<and>
   fst (signIn_verify False demo_store ''visitor_9'' \<lparr>code = Some ''unavailable'', message = ''offline''\<rparr>)
     = Some ''visitor_9''"
  by (simp add: session_visitor_in_def session_admin_out_def session_admin_in_def app_init_def
        authStateChanged_def checkAdminStatus_def getDoc_admin_def App_render_def signIn_verify_def
        demo_store_def)

end
